theory Spec2Isabelle
  imports Complex_Main "HOL-Library.Sublist"
begin

section \<open>Python values\<close>

text \<open>
  The two modules work on parsed JSON. A Python \<open>float\<close> is represented by the
  exact rational it denotes, or by one of the three non-finite values; rounding to
  binary64 is not represented. A string is a list of 8-bit characters, so the model
  covers ASCII text: \<open>\d\<close>, \<open>upper()\<close> and \<open>startswith\<close> are the ASCII ones.
  A JSON object is the association list of its members in insertion order, which is
  the order \<open>dict.values()\<close> iterates in.
\<close>

datatype pyfloat = Fin rat | PInf | NInf | NaN

datatype json =
    JNull
  | JBool bool
  | JInt int
  | JFloat pyfloat
  | JStr string
  | JArr "json list"
  | JObj "(string \<times> json) list"

datatype py_error =
    ValueError
  | TypeError
  | OverflowError
  | AttributeError
  | BrightDataError string
  | HTTPError
  | JSONDecodeError

text \<open>Truth value testing, as \<open>not x\<close>, \<open>x or y\<close> and \<open>if x\<close> apply it.\<close>

fun truthy :: "json \<Rightarrow> bool" where
  "truthy JNull = False"
| "truthy (JBool b) = b"
| "truthy (JInt i) = (i \<noteq> 0)"
| "truthy (JFloat f) = (f \<noteq> Fin 0)"
| "truthy (JStr s) = (s \<noteq> [])"
| "truthy (JArr xs) = (xs \<noteq> [])"
| "truthy (JObj kvs) = (kvs \<noteq> [])"

definition py_or :: "json \<Rightarrow> json \<Rightarrow> json" where
  "py_or a b = (if truthy a then a else b)"

text \<open>\<open>d.get(k)\<close>: the member's value, \<open>None\<close> when the key is missing.\<close>

definition dict_get :: "(string \<times> json) list \<Rightarrow> string \<Rightarrow> json" where
  "dict_get d k = (case map_of d k of None \<Rightarrow> JNull | Some v \<Rightarrow> v)"

subsection \<open>Characters and decimal digits\<close>

definition is_digit :: "char \<Rightarrow> bool" where
  "is_digit c = (c \<in> set ''0123456789'')"

definition digit_val :: "char \<Rightarrow> nat" where
  "digit_val c = of_char c - 48"

definition nat_of_digits :: "string \<Rightarrow> nat" where
  "nat_of_digits ds = foldl (\<lambda>a c. 10 * a + digit_val c) 0 ds"

definition upper_char :: "char \<Rightarrow> char" where
  "upper_char c =
     (case map_of (zip ''abcdefghijklmnopqrstuvwxyz'' ''ABCDEFGHIJKLMNOPQRSTUVWXYZ'') c of
        Some u \<Rightarrow> u
      | None \<Rightarrow> c)"

definition upper :: "string \<Rightarrow> string" where
  "upper s = map upper_char s"

section \<open>hotel\_backend: city resolution\<close>

definition CITY_MAP :: "(string \<times> string) list" where
  "CITY_MAP =
     [(''NYC'', ''New York''), (''JFK'', ''New York''), (''LGA'', ''New York''),
      (''EWR'', ''New York''),
      (''MIA'', ''Miami''), (''FLL'', ''Fort Lauderdale''), (''MCO'', ''Orlando''),
      (''LAX'', ''Los Angeles''), (''SFO'', ''San Francisco''), (''SEA'', ''Seattle''),
      (''BOS'', ''Boston''), (''DFW'', ''Dallas''), (''ORD'', ''Chicago''),
      (''IAD'', ''Washington''), (''DCA'', ''Washington''), (''LAS'', ''Las Vegas''),
      (''PHX'', ''Phoenix'')]"

text \<open>\<open>city = CITY_MAP.get(city_or_iata.upper(), city_or_iata)\<close>\<close>

definition resolve_city :: "string \<Rightarrow> string" where
  "resolve_city city_or_iata =
     (case map_of CITY_MAP (upper city_or_iata) of
        Some c \<Rightarrow> c
      | None \<Rightarrow> city_or_iata)"

section \<open>hotel\_backend: night count\<close>

text \<open>
  \<open>datetime.strptime(s, "%Y-%m-%d").date()\<close>. CPython turns the format into the
  regular expression
  \<^verbatim>\<open>(?P<Y>\d\d\d\d)-(?P<m>1[0-2]|0[1-9]|[1-9])-(?P<d>3[0-1]|[1-2]\d|0[1-9]|[1-9]| [1-9])\<close>,
  matches it at the start of the string, raises \<open>ValueError\<close> when there is no match
  or when text remains after the match, and then builds the date, which raises
  \<open>ValueError\<close> for a year, month or day out of range. Each group is the list of its
  alternatives in the order the expression tries them; \<open>first_match\<close> is the
  backtracking.
\<close>

record date =
  year :: int
  month :: int
  day :: int

definition year_alts :: "string \<Rightarrow> (int \<times> string) list" where
  "year_alts s =
     (if 4 \<le> length s \<and> list_all is_digit (take 4 s)
      then [(int (nat_of_digits (take 4 s)), drop 4 s)] else [])"

definition month_alts :: "string \<Rightarrow> (int \<times> string) list" where
  "month_alts s =
     (case s of
        a # b # r \<Rightarrow>
          (if a = CHR ''1'' \<and> b \<in> set ''012'' then [(10 + int (digit_val b), r)] else []) @
          (if a = CHR ''0'' \<and> b \<in> set ''123456789'' then [(int (digit_val b), r)] else [])
      | _ \<Rightarrow> []) @
     (case s of
        a # r \<Rightarrow> (if a \<in> set ''123456789'' then [(int (digit_val a), r)] else [])
      | _ \<Rightarrow> [])"

definition day_alts :: "string \<Rightarrow> (int \<times> string) list" where
  "day_alts s =
     (case s of
        a # b # r \<Rightarrow>
          (if a = CHR ''3'' \<and> b \<in> set ''01'' then [(30 + int (digit_val b), r)] else []) @
          (if a \<in> set ''12'' \<and> is_digit b
           then [(10 * int (digit_val a) + int (digit_val b), r)] else []) @
          (if a = CHR ''0'' \<and> b \<in> set ''123456789'' then [(int (digit_val b), r)] else [])
      | _ \<Rightarrow> []) @
     (case s of
        a # r \<Rightarrow> (if a \<in> set ''123456789'' then [(int (digit_val a), r)] else [])
      | _ \<Rightarrow> []) @
     (case s of
        a # b # r \<Rightarrow>
          (if a = CHR '' '' \<and> b \<in> set ''123456789'' then [(int (digit_val b), r)] else [])
      | _ \<Rightarrow> [])"

fun first_match :: "('a \<Rightarrow> 'b option) \<Rightarrow> 'a list \<Rightarrow> 'b option" where
  "first_match k [] = None"
| "first_match k (x # xs) = (case k x of Some y \<Rightarrow> Some y | None \<Rightarrow> first_match k xs)"

definition expect_dash :: "string \<Rightarrow> string option" where
  "expect_dash s = (case s of c # r \<Rightarrow> (if c = CHR ''-'' then Some r else None) | [] \<Rightarrow> None)"

definition match_ymd :: "string \<Rightarrow> (int \<times> int \<times> int \<times> string) option" where
  "match_ymd s =
     first_match (\<lambda>(y, r1).
       case expect_dash r1 of
         None \<Rightarrow> None
       | Some r2 \<Rightarrow>
           first_match (\<lambda>(m, r3).
             case expect_dash r3 of
               None \<Rightarrow> None
             | Some r4 \<Rightarrow> first_match (\<lambda>(d, r5). Some (y, m, d, r5)) (day_alts r4))
             (month_alts r2))
       (year_alts s)"

definition is_leap :: "int \<Rightarrow> bool" where
  "is_leap y = (y mod 4 = 0 \<and> (y mod 100 \<noteq> 0 \<or> y mod 400 = 0))"

definition days_in_month :: "int \<Rightarrow> int \<Rightarrow> int" where
  "days_in_month y m =
     (if m = 2 \<and> is_leap y then 29
      else [31, 28, 31, 30, 31, 30, 31, 31, 30, 31, 30, 31] ! nat (m - 1))"

definition days_before_year :: "int \<Rightarrow> int" where
  "days_before_year y = (y - 1) * 365 + (y - 1) div 4 - (y - 1) div 100 + (y - 1) div 400"

definition days_before_month :: "int \<Rightarrow> int \<Rightarrow> int" where
  "days_before_month y m =
     [0, 31, 59, 90, 120, 151, 181, 212, 243, 273, 304, 334] ! nat (m - 1)
       + (if 2 < m \<and> is_leap y then 1 else 0)"

text \<open>\<open>date(y, m, d)\<close> checks its fields; \<open>toordinal\<close> is the proleptic Gregorian ordinal.\<close>

definition date_new :: "int \<Rightarrow> int \<Rightarrow> int \<Rightarrow> py_error + date" where
  "date_new y m d =
     (if 1 \<le> y \<and> y \<le> 9999 \<and> 1 \<le> m \<and> m \<le> 12 \<and> 1 \<le> d \<and> d \<le> days_in_month y m
      then Inr \<lparr>year = y, month = m, day = d\<rparr>
      else Inl ValueError)"

definition toordinal :: "date \<Rightarrow> int" where
  "toordinal dt = days_before_year (year dt) + days_before_month (year dt) (month dt) + day dt"

definition strptime_ymd :: "string \<Rightarrow> py_error + date" where
  "strptime_ymd s =
     (case match_ymd s of
        None \<Rightarrow> Inl ValueError
      | Some (y, m, d, rest) \<Rightarrow> (if rest \<noteq> [] then Inl ValueError else date_new y m d))"

text \<open>
  \<^verbatim>\<open>
  def _nights(checkin, checkout):
      try:
          d0 = datetime.strptime(checkin, "%Y-%m-%d").date()
          d1 = datetime.strptime(checkout, "%Y-%m-%d").date()
          return max(1, (d1 - d0).days)
      except Exception:
          return 1
  \<close>
  \<open>nights_try\<close> is the body of the \<open>try\<close>; every \<open>py_error\<close> is an \<open>Exception\<close>,
  so the handler takes each of them.
\<close>

definition nights_try :: "string \<Rightarrow> string \<Rightarrow> py_error + int" where
  "nights_try checkin checkout =
     (case strptime_ymd checkin of
        Inl e \<Rightarrow> Inl e
      | Inr d0 \<Rightarrow>
          (case strptime_ymd checkout of
             Inl e \<Rightarrow> Inl e
           | Inr d1 \<Rightarrow> Inr (max 1 (toordinal d1 - toordinal d0))))"

definition nights :: "string \<Rightarrow> string \<Rightarrow> py_error + int" where
  "nights checkin checkout =
     (case nights_try checkin checkout of
        Inr n \<Rightarrow> Inr n
      | Inl e \<Rightarrow> Inr 1)"

section \<open>hotel\_backend: floats, \<open>str\<close> and \<open>float\<close>\<close>

text \<open>
  A float at or beyond \<open>2^1024 - 2^970\<close> in magnitude has no finite binary64 value:
  converting a string or multiplying gives an infinity there, converting an \<open>int\<close>
  raises \<open>OverflowError\<close>.
\<close>

definition dbl_overflow :: rat where
  "dbl_overflow = 2 ^ 1024 - 2 ^ 970"

definition fin_or_inf :: "rat \<Rightarrow> pyfloat" where
  "fin_or_inf r =
     (if dbl_overflow \<le> r then PInf else if r \<le> - dbl_overflow then NInf else Fin r)"

definition float_truthy :: "pyfloat \<Rightarrow> bool" where
  "float_truthy f = (f \<noteq> Fin 0)"

text \<open>\<open>f * n\<close> for a float \<open>f\<close> and an \<open>int\<close> \<open>n\<close> that converts to a float.\<close>

definition fmul_int :: "pyfloat \<Rightarrow> int \<Rightarrow> pyfloat" where
  "fmul_int f n =
     (case f of
        Fin r \<Rightarrow> fin_or_inf (r * of_int n)
      | PInf \<Rightarrow> (if 0 < n then PInf else if n < 0 then NInf else NaN)
      | NInf \<Rightarrow> (if 0 < n then NInf else if n < 0 then PInf else NaN)
      | NaN \<Rightarrow> NaN)"

definition round_half_even :: "rat \<Rightarrow> int" where
  "round_half_even x =
     (let f = \<lfloor>x\<rfloor>; d = x - of_int f
      in if d < 1 / 2 then f else if 1 / 2 < d then f + 1 else if even f then f else f + 1)"

text \<open>\<open>round(f, 2)\<close>: non-finite floats round to themselves.\<close>

definition round2 :: "pyfloat \<Rightarrow> pyfloat" where
  "round2 f = (case f of Fin r \<Rightarrow> Fin (of_int (round_half_even (r * 100)) / 100) | _ \<Rightarrow> f)"

text \<open>
  What the interpreter decides and the repository does not: \<open>float(s)\<close> on a string
  that is not a plain run of digits (\<open>None\<close> stands for \<open>ValueError\<close>), the \<open>repr\<close>
  of a float and of a string, and the order in which the set \<open>URL_KEYS\<close> is
  iterated. They are parameters of the model.
\<close>

record runtime =
  float_of_str :: "string \<Rightarrow> pyfloat option"
  repr_float :: "pyfloat \<Rightarrow> string"
  repr_str :: "string \<Rightarrow> string"
  url_key_order :: "string list"

definition float_of_digits :: "string \<Rightarrow> pyfloat" where
  "float_of_digits ds = fin_or_inf (of_nat (nat_of_digits ds))"

definition float_str :: "runtime \<Rightarrow> string \<Rightarrow> pyfloat option" where
  "float_str R s =
     (if s \<noteq> [] \<and> list_all is_digit s then Some (float_of_digits s) else float_of_str R s)"

text \<open>\<open>float(v)\<close> on a parsed JSON value.\<close>

definition py_float :: "runtime \<Rightarrow> json \<Rightarrow> py_error + pyfloat" where
  "py_float R v =
     (case v of
        JNull \<Rightarrow> Inl TypeError
      | JBool b \<Rightarrow> Inr (Fin (if b then 1 else 0))
      | JInt i \<Rightarrow> (if dbl_overflow \<le> \<bar>of_int i\<bar> then Inl OverflowError else Inr (Fin (of_int i)))
      | JFloat f \<Rightarrow> Inr f
      | JStr s \<Rightarrow> (case float_str R s of None \<Rightarrow> Inl ValueError | Some f \<Rightarrow> Inr f)
      | JArr xs \<Rightarrow> Inl TypeError
      | JObj kvs \<Rightarrow> Inl TypeError)"

definition digit_char :: "nat \<Rightarrow> char" where
  "digit_char n = ''0123456789'' ! n"

fun str_of_nat :: "nat \<Rightarrow> string" where
  "str_of_nat n =
     (if n < 10 then [digit_char n] else str_of_nat (n div 10) @ [digit_char (n mod 10)])"

declare str_of_nat.simps [simp del]

definition str_of_int :: "int \<Rightarrow> string" where
  "str_of_int i = (if i < 0 then CHR ''-'' # str_of_nat (nat (- i)) else str_of_nat (nat i))"

fun join :: "string \<Rightarrow> string list \<Rightarrow> string" where
  "join sep [] = []"
| "join sep [x] = x"
| "join sep (x # y # ys) = x @ sep @ join sep (y # ys)"

fun py_repr :: "runtime \<Rightarrow> json \<Rightarrow> string" where
  "py_repr R JNull = ''None''"
| "py_repr R (JBool b) = (if b then ''True'' else ''False'')"
| "py_repr R (JInt i) = str_of_int i"
| "py_repr R (JFloat f) = repr_float R f"
| "py_repr R (JStr s) = repr_str R s"
| "py_repr R (JArr xs) = ''['' @ join '', '' (map (py_repr R) xs) @ '']''"
| "py_repr R (JObj kvs) =
     ''{'' @ join '', '' (map (\<lambda>kv. repr_str R (fst kv) @ '': '' @ py_repr R (snd kv)) kvs) @ ''}''"

text \<open>\<open>str(v)\<close>\<close>

definition py_str :: "runtime \<Rightarrow> json \<Rightarrow> string" where
  "py_str R v = (case v of JStr s \<Rightarrow> s | _ \<Rightarrow> py_repr R v)"

section \<open>hotel\_backend: the extractor\<close>

definition URL_KEYS :: "string set" where
  "URL_KEYS =
     {''url'', ''link'', ''g_url'', ''maps_url'', ''hotel_url'', ''booking_url'',
      ''result_url'', ''place_link''}"

text \<open>
  \<^verbatim>\<open>
  def _to_float(v):
      try: return float(v)
      except Exception: return None
  \<close>
\<close>

definition to_float :: "runtime \<Rightarrow> json \<Rightarrow> pyfloat option" where
  "to_float R v = (case py_float R v of Inr f \<Rightarrow> Some f | Inl e \<Rightarrow> None)"

text \<open>
  \<open>re.search(r"(\d[\d,]*)", s)\<close>: the leftmost position where the pattern matches is
  the first digit; the star is greedy. The result is group 1.
\<close>

fun re_search_price :: "string \<Rightarrow> string option" where
  "re_search_price [] = None"
| "re_search_price (c # cs) =
     (if is_digit c then Some (c # takeWhile (\<lambda>x. is_digit x \<or> x = CHR '','') cs)
      else re_search_price cs)"

text \<open>
  \<^verbatim>\<open>
  def _to_price_usd(s):
      if not s: return None
      m = re.search(r"(\d[\d,]*)", s)
      return float(m.group(1).replace(",", "")) if m else None
  \<close>
\<close>

definition to_price_usd :: "string option \<Rightarrow> pyfloat option" where
  "to_price_usd s =
     (case s of
        None \<Rightarrow> None
      | Some t \<Rightarrow>
          (if t = [] then None
           else (case re_search_price t of
                   None \<Rightarrow> None
                 | Some g \<Rightarrow> Some (float_of_digits (filter (\<lambda>c. c \<noteq> CHR '','') g)))))"

definition startswith :: "string \<Rightarrow> string \<Rightarrow> bool" where
  "startswith s p = (take (length p) s = p)"

fun pick_url_loop :: "(string \<times> json) list \<Rightarrow> string list \<Rightarrow> string option" where
  "pick_url_loop d [] = None"
| "pick_url_loop d (k # ks) =
     (case dict_get d k of
        JStr v \<Rightarrow> (if startswith v ''http'' then Some v else pick_url_loop d ks)
      | _ \<Rightarrow> pick_url_loop d ks)"

definition pick_url :: "runtime \<Rightarrow> (string \<times> json) list \<Rightarrow> string option" where
  "pick_url R d = pick_url_loop d (url_key_order R)"

record candidate =
  cand_name :: string
  cand_rating :: "pyfloat option"
  cand_price_text :: "string option"
  cand_address :: json
  cand_url :: "string option"

text \<open>The four alias lookups at the head of \<open>walk\<close>'s dict branch.\<close>

definition node_name :: "(string \<times> json) list \<Rightarrow> json" where
  "node_name node = py_or (dict_get node ''name'') (dict_get node ''title'')"

definition node_rating :: "(string \<times> json) list \<Rightarrow> json" where
  "node_rating node =
     py_or (py_or (py_or (dict_get node ''overall_rating'') (dict_get node ''rating''))
       (dict_get node ''stars'')) (dict_get node ''star_rating'')"

definition node_price_text :: "(string \<times> json) list \<Rightarrow> json" where
  "node_price_text node =
     py_or (py_or (py_or (dict_get node ''price_text'') (dict_get node ''price''))
       (dict_get node ''rate'')) (dict_get node ''rate_per_night'')"

definition node_address :: "(string \<times> json) list \<Rightarrow> json" where
  "node_address node =
     py_or (py_or (py_or (dict_get node ''address'') (dict_get node ''neighborhood''))
       (dict_get node ''vicinity'')) (dict_get node ''location'')"

text \<open>\<open>if name and (rating or price_text)\<close>\<close>

definition qualifies :: "(string \<times> json) list \<Rightarrow> bool" where
  "qualifies node =
     (truthy (node_name node) \<and> (truthy (node_rating node) \<or> truthy (node_price_text node)))"

definition candidate_of :: "runtime \<Rightarrow> (string \<times> json) list \<Rightarrow> candidate" where
  "candidate_of R node =
     \<lparr>cand_name = py_str R (node_name node),
      cand_rating = to_float R (node_rating node),
      cand_price_text =
        (if node_price_text node \<noteq> JNull then Some (py_str R (node_price_text node)) else None),
      cand_address = node_address node,
      cand_url = pick_url R node\<rparr>"

text \<open>
  \<open>walk\<close> appends to the list \<open>found\<close> of the enclosing function; here it takes the
  list and returns it extended. \<open>walk_values\<close> is \<open>for v in node.values(): walk(v)\<close>
  and \<open>walk_items\<close> is \<open>for v in node: walk(v)\<close>.
\<close>

fun walk :: "runtime \<Rightarrow> json \<Rightarrow> candidate list \<Rightarrow> candidate list"
  and walk_values :: "runtime \<Rightarrow> (string \<times> json) list \<Rightarrow> candidate list \<Rightarrow> candidate list"
  and walk_items :: "runtime \<Rightarrow> json list \<Rightarrow> candidate list \<Rightarrow> candidate list" where
  "walk R (JObj node) found =
     walk_values R node (if qualifies node then found @ [candidate_of R node] else found)"
| "walk R (JArr xs) found = walk_items R xs found"
| "walk R JNull found = found"
| "walk R (JBool b) found = found"
| "walk R (JInt i) found = found"
| "walk R (JFloat f) found = found"
| "walk R (JStr s) found = found"
| "walk_values R [] found = found"
| "walk_values R (kv # kvs) found = walk_values R kvs (walk R (snd kv) found)"
| "walk_items R [] found = found"
| "walk_items R (v # vs) found = walk_items R vs (walk R v found)"

record row =
  row_name :: string
  row_rating :: "pyfloat option"
  row_area :: json
  row_price_usd :: "pyfloat option"
  row_url :: "string option"

definition row_of :: "candidate \<Rightarrow> row" where
  "row_of h =
     \<lparr>row_name = cand_name h,
      row_rating = cand_rating h,
      row_area = cand_address h,
      row_price_usd = to_price_usd (cand_price_text h),
      row_url = cand_url h\<rparr>"

text \<open>
  \<^verbatim>\<open>
  out, seen = [], set()
  for h in found:
      if h["name"] in seen: continue
      seen.add(h["name"])
      out.append({...})
      if len(out) >= limit: break
  return out
  \<close>
\<close>

fun dedup_loop :: "int \<Rightarrow> candidate list \<Rightarrow> row list \<Rightarrow> string set \<Rightarrow> row list" where
  "dedup_loop limit [] out seen = out"
| "dedup_loop limit (h # hs) out seen =
     (if cand_name h \<in> seen then dedup_loop limit hs out seen
      else if limit \<le> int (length (out @ [row_of h])) then out @ [row_of h]
      else dedup_loop limit hs (out @ [row_of h]) (insert (cand_name h) seen))"

definition extract_hotels_from_serp_json :: "runtime \<Rightarrow> json \<Rightarrow> int \<Rightarrow> row list" where
  "extract_hotels_from_serp_json R data limit = dedup_loop limit (walk R data []) [] {}"

section \<open>hotel\_backend: the search\<close>

text \<open>
  \<open>quote_plus\<close> of \<open>urllib.parse\<close> on the bytes of a string: unreserved characters
  stay, a space becomes \<open>+\<close>, every other byte becomes \<open>%XX\<close>.
  \<open>urlencode(q, quote_via=quote_plus)\<close> joins the quoted pairs with \<open>&\<close>.
\<close>

definition hex_digit :: "nat \<Rightarrow> char" where
  "hex_digit n = ''0123456789ABCDEF'' ! n"

definition quote_char :: "char \<Rightarrow> string" where
  "quote_char c =
     (if c \<in> set ''ABCDEFGHIJKLMNOPQRSTUVWXYZabcdefghijklmnopqrstuvwxyz0123456789_.-~''
      then [c]
      else if c = CHR '' '' then ''+''
      else [CHR ''%'', hex_digit (of_char c div 16), hex_digit (of_char c mod 16)])"

definition quote_plus :: "string \<Rightarrow> string" where
  "quote_plus s = concat (map quote_char s)"

definition urlencode :: "(string \<times> string) list \<Rightarrow> string" where
  "urlencode q = join ''&'' (map (\<lambda>kv. quote_plus (fst kv) @ ''='' @ quote_plus (snd kv)) q)"

definition hotels_url ::
  "string \<Rightarrow> string \<Rightarrow> string \<Rightarrow> int \<Rightarrow> string \<Rightarrow> string \<Rightarrow> string \<Rightarrow> string" where
  "hotels_url city checkin checkout adults currency country lang =
     ''https://www.google.com/travel/hotels?'' @
     urlencode
       [(''q'', ''hotels in '' @ city),
        (''gl'', country), (''hl'', lang),
        (''brd_dates'', checkin @ '','' @ checkout),
        (''brd_occupancy'', str_of_int adults),
        (''brd_currency'', currency),
        (''brd_json'', ''1'')]"

text \<open>
  The two module globals read from the environment, and the network: \<open>httpx.post\<close>
  is a function from the authorization header, the zone and the target URL to a
  response or a transport error; a response has its status code and what
  \<open>.json()\<close> gives for its body.
\<close>

record env =
  BRIGHT_API_KEY :: "string option"
  BRIGHT_SERP_ZONE :: "string option"

record response =
  status_code :: nat
  json_body :: "py_error + json"

type_synonym transport = "string \<Rightarrow> string option \<Rightarrow> string \<Rightarrow> py_error + response"

definition not_str :: "string option \<Rightarrow> bool" where
  "not_str s = (case s of None \<Rightarrow> True | Some t \<Rightarrow> t = [])"

definition fmt_opt :: "string option \<Rightarrow> string" where
  "fmt_opt s = (case s of None \<Rightarrow> ''None'' | Some t \<Rightarrow> t)"

definition require_creds :: "env \<Rightarrow> py_error + unit" where
  "require_creds E =
     (if not_str (BRIGHT_API_KEY E) \<or> not_str (BRIGHT_SERP_ZONE E)
      then Inl (BrightDataError ''Set BRIGHTDATA_API_KEY and BRIGHTDATA_SERP_ZONE env vars'')
      else Inr ())"

definition raise_for_status :: "response \<Rightarrow> py_error + unit" where
  "raise_for_status resp =
     (if 200 \<le> status_code resp \<and> status_code resp < 300 then Inr () else Inl HTTPError)"

definition serp_direct :: "env \<Rightarrow> transport \<Rightarrow> string \<Rightarrow> py_error + response" where
  "serp_direct E post url =
     (case require_creds E of
        Inl e \<Rightarrow> Inl e
      | Inr u \<Rightarrow>
          (case post (''Bearer '' @ fmt_opt (BRIGHT_API_KEY E)) (BRIGHT_SERP_ZONE E) url of
             Inl e \<Rightarrow> Inl e
           | Inr resp \<Rightarrow>
               (case raise_for_status resp of Inl e \<Rightarrow> Inl e | Inr u' \<Rightarrow> Inr resp)))"

text \<open>The body of the \<open>try\<close> in \<open>search_hotels_google\<close>.\<close>

definition fetch_try :: "env \<Rightarrow> transport \<Rightarrow> string \<Rightarrow> py_error + json" where
  "fetch_try E post url =
     (case serp_direct E post url of Inl e \<Rightarrow> Inl e | Inr res \<Rightarrow> json_body res)"

record hotel =
  hotel_name :: string
  hotel_area :: json
  hotel_stars :: pyfloat
  price_per_night_usd :: "pyfloat option"
  total_usd :: "pyfloat option"
  hotel_url :: string

text \<open>The body of \<open>for r in rows\<close>: one output record from one extracted row.\<close>

definition fallback_url :: "string \<Rightarrow> string \<Rightarrow> string" where
  "fallback_url name city =
     ''https://www.google.com/maps/search/?api=1&query='' @ quote_plus (name @ '' '' @ city)"

definition assemble_hotel :: "string \<Rightarrow> int \<Rightarrow> row \<Rightarrow> hotel" where
  "assemble_hotel city n r =
     (let name = (if row_name r \<noteq> [] then row_name r else ''Hotel'');
          area = py_or (row_area r) (JStr ''Central'');
          stars = (case row_rating r of
                     None \<Rightarrow> Fin (7 / 2)
                   | Some f \<Rightarrow> (if float_truthy f then f else Fin (7 / 2)));
          p_night = row_price_usd r;
          total = (case p_night of None \<Rightarrow> None | Some p \<Rightarrow> Some (fmul_int p n));
          bd_url = row_url r;
          url_final = (case bd_url of
                         None \<Rightarrow> fallback_url name city
                       | Some u \<Rightarrow> (if u \<noteq> [] then u else fallback_url name city))
      in \<lparr>hotel_name = name,
          hotel_area = area,
          hotel_stars = stars,
          price_per_night_usd = p_night,
          total_usd = (case total of
                         None \<Rightarrow> None
                       | Some t \<Rightarrow> (if float_truthy t then Some (round2 t) else None)),
          hotel_url = url_final\<rparr>)"

text \<open>
  \<open>except Exception\<close> around the request takes every \<open>py_error\<close>, the
  \<open>BrightDataError\<close> of \<open>_require_creds\<close> included (it is a \<open>RuntimeError\<close>),
  and returns the empty list.
\<close>

definition search_hotels_google ::
  "runtime \<Rightarrow> env \<Rightarrow> transport \<Rightarrow> string \<Rightarrow> string \<Rightarrow> string \<Rightarrow> int \<Rightarrow> string \<Rightarrow> string
     \<Rightarrow> string \<Rightarrow> int \<Rightarrow> py_error + hotel list" where
  "search_hotels_google R E post city_or_iata checkin checkout adults currency country lang limit =
     (let city = resolve_city city_or_iata;
          url = hotels_url city checkin checkout adults currency country lang
      in case fetch_try E post url of
           Inl e \<Rightarrow> Inr []
         | Inr data \<Rightarrow>
             (let rows = extract_hotels_from_serp_json R data limit
              in case nights checkin checkout of
                   Inl e \<Rightarrow> Inl e
                 | Inr n \<Rightarrow> Inr (map (assemble_hotel city n) rows)))"

text \<open>
  The command line entry: what it prints, or the exception that leaves it.
  \<^verbatim>\<open>
  try:
      hotels = search_hotels_google(args.city, args.checkin, args.checkout,
                                    adults=args.adults, limit=args.limit)
      print(json.dumps({"city": ..., "results": hotels}, indent=2))
  except BrightDataError as e:
      print(json.dumps({"error": str(e)}))
  \<close>
\<close>

datatype printed =
    Results string string string int "hotel list"
  | Error string

definition cli_main ::
  "runtime \<Rightarrow> env \<Rightarrow> transport \<Rightarrow> string \<Rightarrow> string \<Rightarrow> string \<Rightarrow> int \<Rightarrow> int
     \<Rightarrow> py_error + printed" where
  "cli_main R E post city checkin checkout adults limit =
     (case search_hotels_google R E post city checkin checkout adults ''USD'' ''us'' ''en'' limit of
        Inr hotels \<Rightarrow> Inr (Results city checkin checkout adults hotels)
      | Inl e \<Rightarrow> (case e of BrightDataError msg \<Rightarrow> Inr (Error msg) | _ \<Rightarrow> Inl e))"

section \<open>google\_places\_client: the summary\<close>

text \<open>
  \<^verbatim>\<open>
  def normalize_place_summary(place):
      return {
          'place_id': place.get('place_id'),
          'name': place.get('name'),
          'rating': place.get('rating'),
          'types': place.get('types'),
          'location': place.get('geometry', {}).get('location'),
          'address': place.get('formatted_address') or place.get('vicinity')
      }
  \<close>
  \<open>place.get('geometry', {})\<close> is the empty dict only when the key is missing; the
  second \<open>.get\<close> is an attribute of whatever the key holds, and only a dict has it.
\<close>

record place_summary =
  place_id :: json
  place_name :: json
  place_rating :: json
  place_types :: json
  place_location :: json
  place_address :: json

definition geometry_get_location :: "(string \<times> json) list \<Rightarrow> py_error + json" where
  "geometry_get_location place =
     (case map_of place ''geometry'' of
        None \<Rightarrow> Inr (dict_get [] ''location'')
      | Some (JObj g) \<Rightarrow> Inr (dict_get g ''location'')
      | Some _ \<Rightarrow> Inl AttributeError)"

definition normalize_place_summary :: "(string \<times> json) list \<Rightarrow> py_error + place_summary" where
  "normalize_place_summary place =
     (case geometry_get_location place of
        Inl e \<Rightarrow> Inl e
      | Inr loc \<Rightarrow>
          Inr \<lparr>place_id = dict_get place ''place_id'',
               place_name = dict_get place ''name'',
               place_rating = dict_get place ''rating'',
               place_types = dict_get place ''types'',
               place_location = loc,
               place_address =
                 py_or (dict_get place ''formatted_address'') (dict_get place ''vicinity'')\<rparr>)"

section \<open>What the specification speaks of\<close>

text \<open>
  The nodes of a JSON value in depth-first pre-order: a node, then its children from
  left to right, each with its own subtree. The qualifying nodes are the objects
  among them that have a name and a rating or a price text.
\<close>

fun preorder :: "json \<Rightarrow> json list" where
  "preorder (JObj kvs) = JObj kvs # concat (map (\<lambda>kv. preorder (snd kv)) kvs)"
| "preorder (JArr xs) = JArr xs # concat (map preorder xs)"
| "preorder v = [v]"

definition qualifying_nodes :: "json \<Rightarrow> (string \<times> json) list list" where
  "qualifying_nodes data = [node. JObj node \<leftarrow> preorder data, qualifies node]"

text \<open>The first candidate of every name, in the order of the list.\<close>

fun first_by_name :: "candidate list \<Rightarrow> candidate list" where
  "first_by_name [] = []"
| "first_by_name (h # hs) = h # first_by_name (filter (\<lambda>x. cand_name x \<noteq> cand_name h) hs)"

text \<open>
  The first run of digits and commas in a text: what follows the characters before
  the first digit, up to the first character that is neither a digit nor a comma.
\<close>

definition first_digit_run :: "string \<Rightarrow> string" where
  "first_digit_run s =
     takeWhile (\<lambda>c. is_digit c \<or> c = CHR '','') (dropWhile (\<lambda>c. \<not> is_digit c) s)"

text \<open>The calendar day after a date.\<close>

definition next_day :: "date \<Rightarrow> date" where
  "next_day d =
     (if day d < days_in_month (year d) (month d) then d\<lparr>day := day d + 1\<rparr>
      else if month d < 12 then \<lparr>year = year d, month = month d + 1, day = 1\<rparr>
      else \<lparr>year = year d + 1, month = 1, day = 1\<rparr>)"

section \<open>Worked inputs\<close>

text \<open>The order in which the source writes the members of \<open>URL_KEYS\<close>.\<close>

definition url_keys_as_written :: "string list" where
  "url_keys_as_written =
     [''url'', ''link'', ''g_url'', ''maps_url'', ''hotel_url'', ''booking_url'',
      ''result_url'', ''place_link'']"

definition sample_tree :: json where
  "sample_tree =
     JObj [(''name'', JStr ''Grand''), (''rating'', JFloat (Fin (9 / 2))),
           (''url'', JStr ''https://grand.example''),
           (''rooms'', JArr [JObj [(''title'', JStr ''Suite''), (''price'', JStr ''$300'')],
                             JObj [(''name'', JStr ''No rating or price'')],
                             JInt 7])]"

definition named :: "string \<Rightarrow> candidate" where
  "named n =
     \<lparr>cand_name = n, cand_rating = None, cand_price_text = Some ''$100'',
      cand_address = JNull, cand_url = None\<rparr>"

text \<open>
  A listing whose only hotel has the rating "0" and the price "$0", the row the
  extractor makes of it, two environments, a network that answers every request with
  a given JSON body, a place result, a hotel node whose rating is the number 0 and
  two hotel nodes with links.
\<close>

definition free_night_tree :: json where
  "free_night_tree =
     JObj [(''results'',
            JArr [JObj [(''name'', JStr ''Free Inn''), (''rating'', JStr ''0''),
                        (''price'', JStr ''$0'')]])]"

definition free_night_row :: row where
  "free_night_row =
     \<lparr>row_name = ''Free Inn'', row_rating = Some (Fin 0), row_area = JNull,
      row_price_usd = Some (Fin 0), row_url = None\<rparr>"

definition no_key_env :: env where
  "no_key_env = \<lparr>BRIGHT_API_KEY = None, BRIGHT_SERP_ZONE = Some ''serp_api1''\<rparr>"

definition ok_env :: env where
  "ok_env = \<lparr>BRIGHT_API_KEY = Some ''k'', BRIGHT_SERP_ZONE = Some ''serp_api1''\<rparr>"

definition answer :: "json \<Rightarrow> transport" where
  "answer data = (\<lambda>auth zone url. Inr \<lparr>status_code = 200, json_body = Inr data\<rparr>)"

definition cafe_place :: "(string \<times> json) list" where
  "cafe_place =
     [(''place_id'', JStr ''p1''), (''name'', JStr ''Cafe''),
      (''geometry'', JObj [(''location'', JObj [(''lat'', JInt 47), (''lng'', JInt (- 122))])]),
      (''vicinity'', JStr ''1 Pine St'')]"

definition budget_node :: "(string \<times> json) list" where
  "budget_node = [(''name'', JStr ''Budget Inn''), (''rating'', JInt 0)]"

definition inn_node :: "(string \<times> json) list" where
  "inn_node = [(''name'', JStr ''Inn''), (''price'', JStr ''80''), (''link'', JStr ''/inn'')]"

definition grand_node :: "(string \<times> json) list" where
  "grand_node =
     [(''name'', JStr ''Grand''), (''rating'', JInt 4), (''link'', JStr ''/grand''),
      (''url'', JStr ''https://grand.example'')]"

section \<open>Properties\<close>

subsection \<open>Evaluation rules\<close>

lemmas strptime_eval =
  strptime_ymd_def match_ymd_def year_alts_def month_alts_def day_alts_def
  expect_dash_def is_digit_def digit_val_def nat_of_digits_def date_new_def
  days_in_month_def is_leap_def

lemmas ordinal_eval = toordinal_def days_before_year_def days_before_month_def

lemma strptime_checkin: "strptime_ymd ''2025-12-05'' = Inr \<lparr>year = 2025, month = 12, day = 5\<rparr>"
  by (simp add: strptime_eval)

lemma strptime_checkout: "strptime_ymd ''2025-12-08'' = Inr \<lparr>year = 2025, month = 12, day = 8\<rparr>"
  by (simp add: strptime_eval)

lemma strptime_short_fields: "strptime_ymd ''2025-2-3'' = Inr \<lparr>year = 2025, month = 2, day = 3\<rparr>"
  by (simp add: strptime_eval)

lemma strptime_leap_day: "strptime_ymd ''2024-02-29'' = Inr \<lparr>year = 2024, month = 2, day = 29\<rparr>"
  by (simp add: strptime_eval)

lemma strptime_no_such_day: "strptime_ymd ''2025-02-30'' = Inl ValueError"
  by (simp add: strptime_eval)

lemma strptime_trailing_text: "strptime_ymd ''2025-12-05T10'' = Inl ValueError"
  by (simp add: strptime_eval)

lemma strptime_other_format: "strptime_ymd ''12/05/2025'' = Inl ValueError"
  by (simp add: strptime_eval)

lemma toordinal_checkout: "toordinal \<lparr>year = 2025, month = 12, day = 8\<rparr> = 739593"
  by (simp add: ordinal_eval is_leap_def)

subsection \<open>City resolution\<close>

lemma city_keys_distinct: "distinct (map fst CITY_MAP)"
  by (simp add: CITY_MAP_def)

text \<open>
  C7. For every input string: when the upper-cased input is a key of \<open>CITY_MAP\<close>,
  the resolved city is the display name the table stores for that key; otherwise it is
  the input itself, unchanged. \<open>MIA\<close> resolves to \<open>Miami\<close>, not to
  \<open>Fort Lauderdale\<close>.
\<close>

theorem resolve_city_lookup:
  "(\<forall>name. (upper s, name) \<in> set CITY_MAP \<longrightarrow> resolve_city s = name)
   \<and> (upper s \<notin> fst ` set CITY_MAP \<longrightarrow> resolve_city s = s)
   \<and> resolve_city ''MIA'' = ''Miami''
   \<and> resolve_city ''MIA'' \<noteq> ''Fort Lauderdale''"
proof (intro conjI allI impI)
  fix name
  assume "(upper s, name) \<in> set CITY_MAP"
  then have "map_of CITY_MAP (upper s) = Some name"
    using city_keys_distinct by simp
  then show "resolve_city s = name"
    by (simp add: resolve_city_def)
next
  assume "upper s \<notin> fst ` set CITY_MAP"
  then have "map_of CITY_MAP (upper s) = None"
    by (simp add: map_of_eq_None_iff)
  then show "resolve_city s = s"
    by (simp add: resolve_city_def)
next
  show "resolve_city ''MIA'' = ''Miami''"
    by (simp add: resolve_city_def upper_def upper_char_def CITY_MAP_def)
  then show "resolve_city ''MIA'' \<noteq> ''Fort Lauderdale''"
    by simp
qed

theorem resolve_city_lookup_witness:
  "upper ''mia'' = ''MIA'' \<and> (''MIA'', ''Miami'') \<in> set CITY_MAP
   \<and> resolve_city ''mia'' = ''Miami''
   \<and> upper ''Key West'' \<notin> fst ` set CITY_MAP
   \<and> resolve_city ''Key West'' = ''Key West''"
proof -
  have u: "upper ''mia'' = ''MIA''"
    by (simp add: upper_def upper_char_def)
  have m: "(upper ''mia'', ''Miami'') \<in> set CITY_MAP"
    by (simp add: u CITY_MAP_def)
  have k: "upper ''Key West'' \<notin> fst ` set CITY_MAP"
    by (simp add: upper_def upper_char_def CITY_MAP_def)
  show ?thesis
    using u m k resolve_city_lookup [of "''mia''"] resolve_city_lookup [of "''Key West''"]
    by simp
qed

subsection \<open>Night count\<close>

text \<open>The ordinal counts calendar days: the day after a date has the next ordinal.\<close>

lemma div_step:
  assumes "0 < (k::int)"
  shows "y div k = (y - 1) div k + (if y mod k = 0 then 1 else 0)"
proof -
  have y: "y = k * (y div k) + y mod k"
    by simp
  have r: "0 \<le> y mod k" "y mod k < k"
    using assms by simp_all
  show ?thesis
  proof (cases "y mod k = 0")
    case True
    have "y - 1 = (k - 1) + k * (y div k - 1)"
      using y True by (simp add: algebra_simps)
    then have "(y - 1) div k = ((k - 1) + k * (y div k - 1)) div k"
      by (rule arg_cong)
    also have "\<dots> = (y div k - 1) + (k - 1) div k"
      using assms by (subst div_mult_self2) simp_all
    also have "(k - 1) div k = 0"
      using assms by simp
    finally show ?thesis
      using True by simp
  next
    case False
    with r have p: "0 \<le> y mod k - 1" "y mod k - 1 < k"
      by simp_all
    have "y - 1 = (y mod k - 1) + k * (y div k)"
      using y by (simp add: algebra_simps)
    then have "(y - 1) div k = ((y mod k - 1) + k * (y div k)) div k"
      by (rule arg_cong)
    also have "\<dots> = y div k + (y mod k - 1) div k"
      using assms by (subst div_mult_self2) simp_all
    also have "(y mod k - 1) div k = 0"
      using p by simp
    finally show ?thesis
      using False by simp
  qed
qed

lemma days_before_next_year:
  "days_before_year (y + 1) = days_before_year y + (if is_leap y then 366 else 365)"
proof -
  have c: "y mod 100 = 0 \<Longrightarrow> y mod 4 = 0" "y mod 400 = 0 \<Longrightarrow> y mod 100 = 0"
  proof -
    have d: "(4::int) dvd 100" "(100::int) dvd 400"
      by simp_all
    show "y mod 100 = 0 \<Longrightarrow> y mod 4 = 0"
      using dvd_trans [OF d(1), of y] by (simp add: mod_eq_0_iff_dvd)
    show "y mod 400 = 0 \<Longrightarrow> y mod 100 = 0"
      using dvd_trans [OF d(2), of y] by (simp add: mod_eq_0_iff_dvd)
  qed
  define q4 q100 q400 where "q4 = (y - 1) div 4" and "q100 = (y - 1) div 100"
    and "q400 = (y - 1) div 400"
  have s: "y div 4 = q4 + (if y mod 4 = 0 then 1 else 0)"
    "y div 100 = q100 + (if y mod 100 = 0 then 1 else 0)"
    "y div 400 = q400 + (if y mod 400 = 0 then 1 else 0)"
    unfolding q4_def q100_def q400_def by (rule div_step, simp)+
  have l: "days_before_year (y + 1) = y * 365 + y div 4 - y div 100 + y div 400"
    by (simp add: days_before_year_def)
  have r: "days_before_year y = (y - 1) * 365 + q4 - q100 + q400"
    unfolding days_before_year_def q4_def q100_def q400_def by (rule refl)
  show ?thesis
  proof (cases "y mod 4 = 0")
    case False
    with c(1) have h: "y mod 100 \<noteq> 0" by auto
    with c(2) have "y mod 400 \<noteq> 0" by auto
    note this h
    with False show ?thesis
      unfolding l r s is_leap_def by simp
  next
    case four: True
    show ?thesis
    proof (cases "y mod 100 = 0")
      case False
      with c(2) have "y mod 400 \<noteq> 0" by auto
      with four False show ?thesis
        unfolding l r s is_leap_def by simp
    next
      case True
      with four show ?thesis
        unfolding l r s is_leap_def by (cases "y mod 400 = 0") simp_all
    qed
  qed
qed

lemma days_before_next_month:
  assumes "1 \<le> m" "m < (12::int)"
  shows "days_before_month y (m + 1) = days_before_month y m + days_in_month y m"
proof -
  from assms have "m \<in> {1..11}" by simp
  then have "m \<in> {1, 2, 3, 4, 5, 6, 7, 8, 9, 10, 11}"
    by (simp add: simp_from_to)
  then consider "m = 1" | "m = 2" | "m = 3" | "m = 4" | "m = 5" | "m = 6" | "m = 7" | "m = 8"
    | "m = 9" | "m = 10" | "m = 11"
    by blast
  then show ?thesis
    by cases (simp_all add: days_before_month_def days_in_month_def)
qed

lemma december: "days_before_month y 12 + days_in_month y 12 = (if is_leap y then 366 else 365)"
  by (simp add: days_before_month_def days_in_month_def)

lemma toordinal_next_day:
  assumes "date_new y m d = Inr dt"
  shows "toordinal (next_day dt) = toordinal dt + 1"
proof -
  from assms have v: "1 \<le> m" "m \<le> 12" "1 \<le> d" "d \<le> days_in_month y m"
    and dt: "dt = \<lparr>year = y, month = m, day = d\<rparr>"
    by (auto simp: date_new_def split: if_splits)
  show ?thesis
  proof (cases "d < days_in_month y m")
    case True
    then show ?thesis
      by (simp add: next_day_def dt toordinal_def)
  next
    case False
    with v have last: "d = days_in_month y m" by simp
    show ?thesis
    proof (cases "m < 12")
      case True
      then show ?thesis
        using v last days_before_next_month [of m y]
        by (simp add: next_day_def dt toordinal_def)
    next
      case False
      with v have "m = 12" by simp
      then show ?thesis
        using last december [of y] days_before_next_year [of y]
        by (simp add: next_day_def dt toordinal_def days_before_month_def)
    qed
  qed
qed

lemma nights_returns: "\<exists>n. nights ci co = Inr n \<and> 1 \<le> n"
  by (auto simp: nights_def nights_try_def split: sum.splits)

text \<open>
  C5. For every pair of strings \<open>_nights\<close> returns a number, at least 1, and never
  an exception. When both strings parse as dates it is the difference of their day
  ordinals if that is at least 1, and 1 if the checkout is the same day or an earlier
  one; when either string fails to parse it is 1. Equal strings give 1 whether they
  parse or not. The ordinals count whole days: the calendar day after a valid date has
  the next ordinal.
\<close>

theorem nights_spec:
  "(\<exists>n. nights ci co = Inr n \<and> 1 \<le> n)
   \<and> (\<forall>d0 d1. strptime_ymd ci = Inr d0 \<and> strptime_ymd co = Inr d1 \<longrightarrow>
         nights ci co =
           Inr (if 1 \<le> toordinal d1 - toordinal d0 then toordinal d1 - toordinal d0 else 1))
   \<and> ((\<exists>e. strptime_ymd ci = Inl e) \<or> (\<exists>e. strptime_ymd co = Inl e) \<longrightarrow> nights ci co = Inr 1)
   \<and> nights ci ci = Inr 1
   \<and> (date_new y m d = Inr dt \<longrightarrow> toordinal (next_day dt) = toordinal dt + 1)"
  using toordinal_next_day [of y m d dt]
  by (auto simp: nights_def nights_try_def split: sum.splits)

theorem nights_spec_witness:
  "strptime_ymd ''2025-12-05'' = Inr \<lparr>year = 2025, month = 12, day = 5\<rparr>
   \<and> strptime_ymd ''2025-12-08'' = Inr \<lparr>year = 2025, month = 12, day = 8\<rparr>
   \<and> nights ''2025-12-05'' ''2025-12-08'' = Inr 3
   \<and> nights ''2025-12-08'' ''2025-12-05'' = Inr 1
   \<and> strptime_ymd ''2025-02-30'' = Inl ValueError
   \<and> nights ''2025-02-30'' ''2025-12-08'' = Inr 1
   \<and> date_new 2024 2 29 = Inr \<lparr>year = 2024, month = 2, day = 29\<rparr>
   \<and> next_day \<lparr>year = 2024, month = 2, day = 29\<rparr> = \<lparr>year = 2024, month = 3, day = 1\<rparr>
   \<and> toordinal \<lparr>year = 2024, month = 3, day = 1\<rparr>
       = toordinal \<lparr>year = 2024, month = 2, day = 29\<rparr> + 1"
proof -
  have d: "date_new 2024 2 29 = Inr \<lparr>year = 2024, month = 2, day = 29\<rparr>"
    by (simp add: date_new_def days_in_month_def is_leap_def)
  have n: "next_day \<lparr>year = 2024, month = 2, day = 29\<rparr> = \<lparr>year = 2024, month = 3, day = 1\<rparr>"
    by (simp add: next_day_def days_in_month_def is_leap_def)
  show ?thesis
    using nights_spec [of "''2025-12-05''" "''2025-12-08''" 2024 2 29
        "\<lparr>year = 2024, month = 2, day = 29\<rparr>"]
      nights_spec [of "''2025-12-08''" "''2025-12-05''"]
      nights_spec [of "''2025-02-30''" "''2025-12-08''"]
      d n
    by (simp add: strptime_checkin strptime_checkout strptime_no_such_day)
      (simp add: ordinal_eval is_leap_def)
qed

subsection \<open>Price text\<close>

lemma re_search_none: "re_search_price t = None \<longleftrightarrow> \<not> (\<exists>c \<in> set t. is_digit c)"
  by (induction t) auto

lemma re_search_some: "\<exists>c \<in> set t. is_digit c \<Longrightarrow> re_search_price t = Some (first_digit_run t)"
  by (induction t) (auto simp: first_digit_run_def)

lemma digits_no_comma: "list_all is_digit ds \<Longrightarrow> filter (\<lambda>c. c \<noteq> CHR '','') ds = ds"
  by (induction ds) (auto simp: is_digit_def)

lemma float_of_123: "float_of_digits ''123'' = Fin 123"
  by (simp add: float_of_digits_def nat_of_digits_def digit_val_def fin_or_inf_def dbl_overflow_def)

text \<open>
  C6. An absent or empty price text gives no price, and so does a text without a
  digit. A text with a digit gives the float of the first run of digits and commas
  with the commas removed. Digits that follow a decimal point are not part of the run:
  a text that starts, after characters that are not digits, with digits and a point
  gives the float of those digits, so \<open>$123.45 per night\<close> gives 123.0.
\<close>

theorem to_price_usd_spec:
  "to_price_usd None = None
   \<and> to_price_usd (Some []) = None
   \<and> (\<not> (\<exists>c \<in> set t. is_digit c) \<longrightarrow> to_price_usd (Some t) = None)
   \<and> ((\<exists>c \<in> set t. is_digit c) \<longrightarrow>
        to_price_usd (Some t) =
          Some (float_of_digits (filter (\<lambda>c. c \<noteq> CHR '','') (first_digit_run t))))
   \<and> (ds \<noteq> [] \<and> list_all is_digit ds \<and> \<not> (\<exists>c \<in> set pre. is_digit c) \<longrightarrow>
        to_price_usd (Some (pre @ ds @ CHR ''.'' # rest)) = Some (float_of_digits ds))
   \<and> to_price_usd (Some ''$123.45 per night'') = Some (Fin 123)
   \<and> to_price_usd (Some ''N/A'') = None"
proof (intro conjI impI)
  show "to_price_usd None = None" "to_price_usd (Some []) = None"
    by (simp_all add: to_price_usd_def)
next
  assume "\<not> (\<exists>c \<in> set t. is_digit c)"
  then show "to_price_usd (Some t) = None"
    using re_search_none [of t] by (simp add: to_price_usd_def)
next
  assume d: "\<exists>c \<in> set t. is_digit c"
  then have "t \<noteq> []" by auto
  then show "to_price_usd (Some t) =
      Some (float_of_digits (filter (\<lambda>c. c \<noteq> CHR '','') (first_digit_run t)))"
    using re_search_some [OF d] by (simp add: to_price_usd_def)
next
  assume a: "ds \<noteq> [] \<and> list_all is_digit ds \<and> \<not> (\<exists>c \<in> set pre. is_digit c)"
  let ?t = "pre @ ds @ CHR ''.'' # rest"
  from a have d: "\<exists>c \<in> set ?t. is_digit c"
    by (cases ds) auto
  have dw: "dropWhile (\<lambda>c. \<not> is_digit c) ?t = ds @ CHR ''.'' # rest"
    using a by (cases ds) (auto simp: dropWhile_append)
  have tw: "takeWhile (\<lambda>c. is_digit c \<or> c = CHR '','') (ds @ CHR ''.'' # rest) = ds"
    using a by (auto simp: takeWhile_append list_all_iff is_digit_def)
  have run: "first_digit_run ?t = ds"
    by (simp only: first_digit_run_def dw tw)
  have nocomma: "filter (\<lambda>c. c \<noteq> CHR '','') ds = ds"
    using a digits_no_comma by blast
  show "to_price_usd (Some ?t) = Some (float_of_digits ds)"
    using re_search_some [OF d] by (simp add: to_price_usd_def run nocomma)
next
  show "to_price_usd (Some ''$123.45 per night'') = Some (Fin 123)"
    by (simp add: to_price_usd_def is_digit_def float_of_123)
  show "to_price_usd (Some ''N/A'') = None"
    by (simp add: to_price_usd_def is_digit_def)
qed

theorem to_price_usd_spec_witness:
  "(\<exists>c \<in> set ''from $1,299 a night''. is_digit c)
   \<and> to_price_usd (Some ''from $1,299 a night'') = Some (Fin 1299)
   \<and> \<not> (\<exists>c \<in> set ''call us''. is_digit c)
   \<and> to_price_usd (Some ''call us'') = None
   \<and> to_price_usd (Some ''USD 89.99'') = Some (Fin 89)"
  using to_price_usd_spec [of "''from $1,299 a night''"]
    to_price_usd_spec [of "''call us''" "''89''" "''USD ''" "''99''"]
  by (simp add: first_digit_run_def is_digit_def float_of_digits_def nat_of_digits_def
      digit_val_def fin_or_inf_def dbl_overflow_def)

subsection \<open>The tree walk\<close>

lemma walk_preorder_aux:
  "walk R v found = found @ map (candidate_of R) [node. JObj node \<leftarrow> preorder v, qualifies node]"
  "walk_values R kvs found =
     found @ map (candidate_of R)
       [node. JObj node \<leftarrow> concat (map (\<lambda>kv. preorder (snd kv)) kvs), qualifies node]"
  "walk_items R xs found =
     found @ map (candidate_of R)
       [node. JObj node \<leftarrow> concat (map preorder xs), qualifies node]"
  by (induction R v found and R kvs found and R xs found rule: walk_walk_values_walk_items.induct)
    simp_all

lemma walk_candidates: "walk R data found = found @ map (candidate_of R) (qualifying_nodes data)"
  by (simp add: walk_preorder_aux(1) qualifying_nodes_def)

lemma qualifying_nodes_obj:
  "qualifying_nodes (JObj node) =
     (if qualifies node then [node] else []) @ concat (map (\<lambda>kv. qualifying_nodes (snd kv)) node)"
  by (induction node) (simp_all add: qualifying_nodes_def)

lemma qualifying_nodes_arr:
  "qualifying_nodes (JArr xs) = concat (map qualifying_nodes xs)"
  by (induction xs) (simp_all add: qualifying_nodes_def)

text \<open>
  C2 as stated fails on an object whose rating is present and is the number 0: the
  name and the rating are both members of the object, the object does not qualify,
  and the walk finds nothing.
\<close>

theorem zero_rating_not_a_candidate:
  "map_of budget_node ''name'' = Some (JStr ''Budget Inn'')
   \<and> map_of budget_node ''rating'' = Some (JInt 0)
   \<and> \<not> qualifies budget_node
   \<and> qualifying_nodes (JObj budget_node) = []
   \<and> (\<forall>R. walk R (JObj budget_node) [] = [])"
  by (simp add: walk_candidates qualifying_nodes_obj)
    (simp add: budget_node_def qualifies_def node_name_def node_rating_def node_price_text_def
      py_or_def dict_get_def qualifying_nodes_def)

text \<open>
  C2, as the code has it. An object qualifies when its name is true in Python's truth
  value testing and its rating or its price text is, each being the first true value
  among its alias keys (null, false, 0, 0.0, the empty string and the empty list and
  object are not true). For every JSON value the walk appends, to what was found
  before, the candidates of the qualifying objects in depth-first pre-order, one for
  each, so their number is the number of qualifying objects. An object contributes
  its own candidate, if it qualifies, before the candidates of its values, whether it
  qualifies or not; an array contributes the candidates of its elements in order; a
  scalar contributes nothing.
\<close>

theorem walk_preorder:
  "walk R data found = found @ map (candidate_of R) (qualifying_nodes data)
   \<and> length (walk R data []) = length (qualifying_nodes data)
   \<and> walk R (JObj node) [] =
       (if qualifies node then [candidate_of R node] else [])
         @ concat (map (\<lambda>kv. walk R (snd kv) []) node)
   \<and> walk R (JArr xs) [] = concat (map (\<lambda>v. walk R v []) xs)
   \<and> walk R JNull [] = [] \<and> walk R (JBool b) [] = [] \<and> walk R (JInt i) [] = []
   \<and> walk R (JFloat f) [] = [] \<and> walk R (JStr s) [] = []
   \<and> qualifies node =
       (truthy (node_name node) \<and> (truthy (node_rating node) \<or> truthy (node_price_text node)))"
proof -
  have obj: "walk R (JObj node) [] =
       (if qualifies node then [candidate_of R node] else [])
         @ concat (map (\<lambda>kv. walk R (snd kv) []) node)"
    unfolding walk_candidates qualifying_nodes_obj
    by (simp add: map_concat comp_def)
  have arr: "walk R (JArr xs) [] = concat (map (\<lambda>v. walk R v []) xs)"
    unfolding walk_candidates qualifying_nodes_arr
    by (simp add: map_concat comp_def)
  have leaves: "walk R JNull [] = [] \<and> walk R (JBool b) [] = [] \<and> walk R (JInt i) [] = []
      \<and> walk R (JFloat f) [] = [] \<and> walk R (JStr s) [] = []"
    by simp
  have all: "walk R data found = found @ map (candidate_of R) (qualifying_nodes data)"
    by (rule walk_candidates)
  have len: "length (walk R data []) = length (qualifying_nodes data)"
    by (simp add: walk_candidates)
  have q: "qualifies node =
       (truthy (node_name node) \<and> (truthy (node_rating node) \<or> truthy (node_price_text node)))"
    by (rule qualifies_def)
  show ?thesis
    using all len obj arr leaves q by blast
qed

lemma sample_eval:
  "qualifying_nodes sample_tree =
     [[(''name'', JStr ''Grand''), (''rating'', JFloat (Fin (9 / 2))),
       (''url'', JStr ''https://grand.example''),
       (''rooms'', JArr [JObj [(''title'', JStr ''Suite''), (''price'', JStr ''$300'')],
                         JObj [(''name'', JStr ''No rating or price'')],
                         JInt 7])],
      [(''title'', JStr ''Suite''), (''price'', JStr ''$300'')]]"
  by (simp add: sample_tree_def qualifying_nodes_def qualifies_def
      node_name_def node_rating_def node_price_text_def py_or_def dict_get_def)

lemmas candidate_eval =
  candidate_of_def node_name_def node_rating_def node_price_text_def node_address_def
  py_or_def dict_get_def py_str_def to_float_def py_float_def pick_url_def startswith_def

theorem walk_preorder_witness:
  "\<forall>R. walk (R\<lparr>url_key_order := url_keys_as_written\<rparr>) sample_tree [] =
     [\<lparr>cand_name = ''Grand'', cand_rating = Some (Fin (9 / 2)), cand_price_text = None,
       cand_address = JNull, cand_url = Some ''https://grand.example''\<rparr>,
      \<lparr>cand_name = ''Suite'', cand_rating = None, cand_price_text = Some ''$300'',
       cand_address = JNull, cand_url = None\<rparr>]"
  using walk_preorder [of _ sample_tree "[]"]
  by (simp add: sample_eval candidate_eval url_keys_as_written_def)

subsection \<open>Deduplication and truncation\<close>

lemma first_by_name_filter:
  "first_by_name (filter (\<lambda>x. cand_name x \<notin> insert a S) hs) =
   first_by_name (filter (\<lambda>x. cand_name x \<noteq> a) (filter (\<lambda>x. cand_name x \<notin> S) hs))"
  by (simp add: conj_commute)

lemma dedup_loop_eq:
  "int (length out) < limit \<or> out = [] \<Longrightarrow>
   dedup_loop limit hs out seen =
     out @ map row_of
       (take (nat (max 1 (limit - int (length out))))
          (first_by_name (filter (\<lambda>x. cand_name x \<notin> seen) hs)))"
proof (induction limit hs out seen rule: dedup_loop.induct)
  case (1 limit out seen)
  show ?case by simp
next
  case (2 limit h hs out seen)
  show ?case
  proof (cases "cand_name h \<in> seen")
    case True
    with 2 show ?thesis by simp
  next
    case new: False
    show ?thesis
    proof (cases "limit \<le> int (length (out @ [row_of h]))")
      case True
      with "2.prems" have "nat (max 1 (limit - int (length out))) = 1"
        by auto
      with new True show ?thesis by simp
    next
      case False
      then have lt: "int (length (out @ [row_of h])) < limit" by simp
      have n: "nat (max 1 (limit - int (length out))) =
               Suc (nat (max 1 (limit - int (length (out @ [row_of h])))))"
        using lt by auto
      have "dedup_loop limit (h # hs) out seen =
            dedup_loop limit hs (out @ [row_of h]) (insert (cand_name h) seen)"
        using new False by simp
      also have "\<dots> = (out @ [row_of h]) @ map row_of
          (take (nat (max 1 (limit - int (length (out @ [row_of h])))))
             (first_by_name (filter (\<lambda>x. cand_name x \<notin> insert (cand_name h) seen) hs)))"
        using "2.IH"(2) [OF new False] lt by blast
      finally show ?thesis
        using new by (simp only: n first_by_name_filter) simp
    qed
  qed
qed

lemma dedup_loop_start:
  "dedup_loop limit found [] {} =
     map row_of (take (nat (max 1 limit)) (first_by_name found))"
  using dedup_loop_eq [of "[]" limit found "{}"] by simp

lemma first_by_name_distinct:
  "distinct (map cand_name hs) \<Longrightarrow> first_by_name hs = hs"
proof (induction hs)
  case Nil
  show ?case by simp
next
  case (Cons h hs)
  then have "filter (\<lambda>x. cand_name x \<noteq> cand_name h) hs = hs"
    by (auto simp: filter_id_conv image_iff)
  with Cons show ?case by simp
qed

lemma first_by_name_names:
  "set (map cand_name (first_by_name hs)) = set (map cand_name hs)
   \<and> distinct (map cand_name (first_by_name hs))"
proof (induction hs rule: first_by_name.induct)
  case 1
  show ?case by simp
next
  case (2 h hs)
  then show ?case by auto
qed

lemma first_by_name_length:
  "length (first_by_name hs) = card (cand_name ` set hs)"
proof -
  have d: "distinct (map cand_name (first_by_name hs))"
    and s: "set (map cand_name (first_by_name hs)) = set (map cand_name hs)"
    using first_by_name_names [of hs] by blast+
  have "card (set (map cand_name (first_by_name hs))) = length (map cand_name (first_by_name hs))"
    using d by (rule distinct_card)
  moreover have "cand_name ` set (first_by_name hs) = cand_name ` set hs"
    using s by simp
  ultimately show ?thesis
    by simp
qed

lemma first_by_name_subseq: "subseq (first_by_name hs) hs"
proof (induction hs rule: first_by_name.induct)
  case 1
  show ?case by simp
next
  case (2 h hs)
  have "subseq (first_by_name (filter (\<lambda>x. cand_name x \<noteq> cand_name h) hs))
          (filter (\<lambda>x. cand_name x \<noteq> cand_name h) hs)"
    by (rule 2)
  also have "subseq (filter (\<lambda>x. cand_name x \<noteq> cand_name h) hs) hs"
    by simp
  finally show ?case by simp
qed

lemma find_filter_other:
  "a \<noteq> b \<Longrightarrow> find (\<lambda>x. cand_name x = a) (filter (\<lambda>x. cand_name x \<noteq> b) hs)
     = find (\<lambda>x. cand_name x = a) hs"
  by (induction hs) auto

lemma first_by_name_find:
  "find (\<lambda>x. cand_name x = a) (first_by_name hs) = find (\<lambda>x. cand_name x = a) hs"
proof (induction hs rule: first_by_name.induct)
  case 1
  show ?case by simp
next
  case (2 h hs)
  show ?case
  proof (cases "cand_name h = a")
    case True
    then show ?thesis by simp
  next
    case False
    then have "a \<noteq> cand_name h" by blast
    then show ?thesis
      using 2 False by (simp add: find_filter_other)
  qed
qed

text \<open>
  C3. The loop over the candidates returns the rows of the first candidates by name,
  in their order, cut after \<open>limit\<close> of them (after one when \<open>limit\<close> is below one).
  The first candidates by name are a subsequence of the candidates, no two of them
  share a name, and for every name the first of them with that name is the first
  candidate with that name. With limit 2 and five candidates of distinct names the
  result is the rows of the first two; candidates named A, B, A give rows named A, B.
\<close>

theorem dedup_truncate:
  "dedup_loop limit found [] {} = map row_of (take (nat (max 1 limit)) (first_by_name found))
   \<and> extract_hotels_from_serp_json R data limit =
       map row_of (take (nat (max 1 limit)) (first_by_name (walk R data [])))
   \<and> subseq (first_by_name found) found
   \<and> distinct (map cand_name (first_by_name found))
   \<and> find (\<lambda>x. cand_name x = a) (first_by_name found) = find (\<lambda>x. cand_name x = a) found
   \<and> (distinct (map cand_name found) \<and> length found = 5 \<longrightarrow>
        dedup_loop 2 found [] {} = map row_of (take 2 found))
   \<and> (map cand_name found = [a, b, a] \<and> a \<noteq> b \<and> 2 \<le> limit \<longrightarrow>
        map row_name (dedup_loop limit found [] {}) = [a, b])"
proof (intro conjI impI)
  show "dedup_loop limit found [] {} = map row_of (take (nat (max 1 limit)) (first_by_name found))"
    by (rule dedup_loop_start)
  show "extract_hotels_from_serp_json R data limit =
       map row_of (take (nat (max 1 limit)) (first_by_name (walk R data [])))"
    by (simp add: extract_hotels_from_serp_json_def dedup_loop_start)
  show "subseq (first_by_name found) found"
    by (rule first_by_name_subseq)
  show "distinct (map cand_name (first_by_name found))"
    using first_by_name_names [of found] by blast
  show "find (\<lambda>x. cand_name x = a) (first_by_name found) = find (\<lambda>x. cand_name x = a) found"
    by (rule first_by_name_find)
next
  assume "distinct (map cand_name found) \<and> length found = 5"
  then have "first_by_name found = found"
    by (simp add: first_by_name_distinct)
  then show "dedup_loop 2 found [] {} = map row_of (take 2 found)"
    by (simp add: dedup_loop_start)
next
  assume h: "map cand_name found = [a, b, a] \<and> a \<noteq> b \<and> 2 \<le> limit"
  then obtain x y z where f: "found = [x, y, z]"
    and n: "cand_name x = a" "cand_name y = b" "cand_name z = a"
    by (auto simp: map_eq_Cons_conv)
  from h have ne: "a \<noteq> b" "b \<noteq> a" by blast+
  have "first_by_name found = [x, y]"
    using ne n by (simp add: f)
  moreover have "2 \<le> nat (max 1 limit)"
    using h by linarith
  ultimately have "take (nat (max 1 limit)) (first_by_name found) = [x, y]"
    by simp
  then show "map row_name (dedup_loop limit found [] {}) = [a, b]"
    by (simp add: dedup_loop_start row_of_def n)
qed

lemma row_of_named:
  "row_of (named n) =
     \<lparr>row_name = n, row_rating = None, row_area = JNull, row_price_usd = Some (Fin 100),
      row_url = None\<rparr>"
  by (simp add: row_of_def named_def to_price_usd_def is_digit_def float_of_digits_def
      nat_of_digits_def digit_val_def fin_or_inf_def dbl_overflow_def)

theorem dedup_truncate_witness:
  "distinct (map cand_name [named ''P'', named ''Q'', named ''R'', named ''S'', named ''T''])
   \<and> length [named ''P'', named ''Q'', named ''R'', named ''S'', named ''T''] = 5
   \<and> dedup_loop 2 [named ''P'', named ''Q'', named ''R'', named ''S'', named ''T''] [] {}
       = [row_of (named ''P''), row_of (named ''Q'')]
   \<and> map cand_name [named ''A'', named ''B'', named ''A''] = [''A'', ''B'', ''A'']
   \<and> map row_name (dedup_loop 12 [named ''A'', named ''B'', named ''A''] [] {}) = [''A'', ''B'']"
  using dedup_truncate [of 2 "[named ''P'', named ''Q'', named ''R'', named ''S'', named ''T'']"]
    dedup_truncate [of 12 "[named ''A'', named ''B'', named ''A'']" _ _ "''A''" "''B''"]
  by (simp add: named_def)

lemma names_case_sensitive:
  "map row_name (dedup_loop 12 [named ''Inn'', named ''inn'', named ''Inn''] [] {}) = [''Inn'', ''inn'']"
  by (simp add: row_of_named) (simp add: named_def)

text \<open>
  C9. When the limit is zero or negative and the input has a qualifying object, the
  extractor returns exactly one row. For every limit the number of rows is the smaller
  of the number of distinct candidate names and \<open>max(limit, 1)\<close>.
\<close>

theorem nonpositive_limit:
  "(limit \<le> 0 \<and> qualifying_nodes data \<noteq> [] \<longrightarrow>
      length (extract_hotels_from_serp_json R data limit) = 1)
   \<and> length (extract_hotels_from_serp_json R data limit) =
       min (card (cand_name ` set (walk R data []))) (nat (max limit 1))"
proof -
  have len: "length (extract_hotels_from_serp_json R data limit) =
       min (card (cand_name ` set (walk R data []))) (nat (max limit 1))"
    by (simp add: extract_hotels_from_serp_json_def dedup_loop_start first_by_name_length
        max.commute)
  have "length (extract_hotels_from_serp_json R data limit) = 1"
    if a: "limit \<le> 0 \<and> qualifying_nodes data \<noteq> []"
  proof -
    from a have "walk R data [] \<noteq> []"
      by (simp add: walk_candidates)
    then have "cand_name ` set (walk R data []) \<noteq> {}"
      by simp
    then have "0 < card (cand_name ` set (walk R data []))"
      by (simp add: card_gt_0_iff)
    moreover have "nat (max limit 1) = 1"
      using a by simp
    ultimately show ?thesis
      using len by simp
  qed
  with len show ?thesis by blast
qed

theorem nonpositive_limit_witness:
  "qualifying_nodes sample_tree \<noteq> []
   \<and> (\<forall>R. length (extract_hotels_from_serp_json R sample_tree 0) = 1)
   \<and> (\<forall>R. length (extract_hotels_from_serp_json R sample_tree (- 3)) = 1)"
  using nonpositive_limit [of 0 sample_tree] nonpositive_limit [of "- 3" sample_tree]
  by (simp add: sample_eval)

subsection \<open>The output URL\<close>

lemma pick_url_loop_some:
  "pick_url_loop d ks = Some u \<Longrightarrow> startswith u ''http'' \<and> (\<exists>k \<in> set ks. dict_get d k = JStr u)"
  by (induction ks) (auto split: json.splits if_splits)

lemma pick_url_loop_none:
  "pick_url_loop d ks = None \<Longrightarrow> k \<in> set ks \<Longrightarrow> dict_get d k = JStr v \<Longrightarrow> \<not> startswith v ''http''"
  by (induction ks) (auto split: json.splits if_splits)

lemma pick_url_loop_no_http:
  "(\<And>k v. dict_get d k = JStr v \<Longrightarrow> \<not> startswith v ''http'') \<Longrightarrow> pick_url_loop d ks = None"
  by (induction ks) (auto split: json.splits)

lemma startswith_http_nonempty: "startswith u ''http'' \<Longrightarrow> u \<noteq> []"
  by (auto simp: startswith_def)

lemma fallback_https: "startswith (fallback_url name city) ''https''"
  by (simp add: fallback_url_def startswith_def)

lemma fallback_http: "startswith (fallback_url name city) ''http''"
  by (simp add: fallback_url_def startswith_def)

lemma first_by_name_set: "set (first_by_name hs) \<subseteq> set hs"
  by (induction hs rule: first_by_name.induct) auto

lemma extract_rows_from_nodes:
  assumes "r \<in> set (extract_hotels_from_serp_json R data limit)"
  shows "\<exists>node \<in> set (qualifying_nodes data). r = row_of (candidate_of R node)"
proof -
  from assms obtain h where h: "h \<in> set (take (nat (max 1 limit)) (first_by_name (walk R data [])))"
    and r: "r = row_of h"
    by (auto simp: extract_hotels_from_serp_json_def dedup_loop_start)
  from h have "h \<in> set (first_by_name (walk R data []))"
    by (rule in_set_takeD)
  then have "h \<in> set (walk R data [])"
    using first_by_name_set by blast
  then obtain node where "node \<in> set (qualifying_nodes data)" "h = candidate_of R node"
    by (auto simp: walk_candidates)
  with r show ?thesis by blast
qed

lemma row_url_http:
  "row_url (row_of (candidate_of R node)) = Some u \<Longrightarrow> startswith u ''http''"
  using pick_url_loop_some [of node "url_key_order R" u]
  by (simp add: row_of_def candidate_of_def pick_url_def)

lemma assemble_url:
  "hotel_url (assemble_hotel city n r) =
     (case row_url r of
        None \<Rightarrow> fallback_url (hotel_name (assemble_hotel city n r)) city
      | Some u \<Rightarrow> (if u \<noteq> [] then u else fallback_url (hotel_name (assemble_hotel city n r)) city))"
  by (simp add: assemble_hotel_def Let_def split: option.splits)

lemma assemble_url_http:
  assumes "\<And>u. row_url r = Some u \<Longrightarrow> startswith u ''http''"
  shows "startswith (hotel_url (assemble_hotel city n r)) ''http''"
proof (cases "row_url r")
  case None
  then show ?thesis
    by (simp add: assemble_url fallback_http)
next
  case (Some u)
  with assms have "startswith u ''http''" by blast
  with Some show ?thesis
    by (simp add: assemble_url fallback_http)
qed

lemma search_returns:
  "\<exists>hs. search_hotels_google R E post c ci co ad cur cn lg limit = Inr hs"
  using nights_returns [of ci co]
  by (auto simp: search_hotels_google_def Let_def split: sum.splits)

lemma search_rows:
  assumes "search_hotels_google R E post c ci co ad cur cn lg limit = Inr hs" and "h \<in> set hs"
  shows "\<exists>data n r. r \<in> set (extract_hotels_from_serp_json R data limit)
           \<and> nights ci co = Inr n \<and> h = assemble_hotel (resolve_city c) n r"
  using assms by (fastforce simp: search_hotels_google_def Let_def split: sum.splits)

lemma url_keys_as_written_set:
  "set url_keys_as_written = URL_KEYS \<and> distinct url_keys_as_written"
  by (simp add: url_keys_as_written_def URL_KEYS_def)

lemma pick_url_none_iff:
  "pick_url R node = None \<longleftrightarrow>
     (\<forall>k \<in> set (url_key_order R). \<forall>v. dict_get node k = JStr v \<longrightarrow> \<not> startswith v ''http'')"
proof
  assume "pick_url R node = None"
  then show "\<forall>k \<in> set (url_key_order R). \<forall>v. dict_get node k = JStr v \<longrightarrow> \<not> startswith v ''http''"
    using pick_url_loop_none [of node "url_key_order R"] by (auto simp: pick_url_def)
next
  assume a: "\<forall>k \<in> set (url_key_order R). \<forall>v. dict_get node k = JStr v \<longrightarrow> \<not> startswith v ''http''"
  show "pick_url R node = None"
  proof (cases "pick_url R node")
    case None
    then show ?thesis .
  next
    case (Some u)
    then have "startswith u ''http'' \<and> (\<exists>k \<in> set (url_key_order R). dict_get node k = JStr u)"
      using pick_url_loop_some [of node "url_key_order R" u] by (simp add: pick_url_def)
    with a show ?thesis by blast
  qed
qed

text \<open>
  C10. \<open>search_hotels_google\<close> returns a list, and the URL of every record in it
  is a non-empty string that begins with \<open>http\<close>. \<open>_pick_url\<close> returns only a
  string that begins with \<open>http\<close> and is the value of one of the URL keys; when it
  returns nothing, which is exactly when no key of \<open>URL_KEYS\<close> holds such a string
  (the order of iteration being an order of that set). The record's URL is the picked one
  when there is one and the map-search fallback otherwise, and the fallback begins
  with \<open>https\<close>.
\<close>

theorem url_begins_with_http:
  "(\<exists>hs. search_hotels_google R E post c ci co ad cur cn lg limit = Inr hs
      \<and> (\<forall>h \<in> set hs. hotel_url h \<noteq> [] \<and> startswith (hotel_url h) ''http''))
   \<and> (pick_url R node = Some u \<longrightarrow>
        startswith u ''http'' \<and> (\<exists>k \<in> set (url_key_order R). dict_get node k = JStr u))
   \<and> (set (url_key_order R) = URL_KEYS \<longrightarrow>
        (pick_url R node = None) =
          (\<forall>k \<in> URL_KEYS. \<forall>v. dict_get node k = JStr v \<longrightarrow> \<not> startswith v ''http''))
   \<and> hotel_url (assemble_hotel city n (row_of (candidate_of R node))) =
       (case pick_url R node of
          Some u \<Rightarrow> u
        | None \<Rightarrow> fallback_url (hotel_name (assemble_hotel city n (row_of (candidate_of R node)))) city)
   \<and> startswith (fallback_url name city) ''https''"
proof -
  obtain hs where hs: "search_hotels_google R E post c ci co ad cur cn lg limit = Inr hs"
    using search_returns by blast
  have "hotel_url h \<noteq> [] \<and> startswith (hotel_url h) ''http''" if "h \<in> set hs" for h
  proof -
    from search_rows [OF hs that] obtain data m r
      where r: "r \<in> set (extract_hotels_from_serp_json R data limit)"
        and h: "h = assemble_hotel (resolve_city c) m r"
      by blast
    from extract_rows_from_nodes [OF r] obtain nd where "r = row_of (candidate_of R nd)"
      by blast
    then have "\<And>u. row_url r = Some u \<Longrightarrow> startswith u ''http''"
      using row_url_http by blast
    then have "startswith (hotel_url h) ''http''"
      unfolding h by (rule assemble_url_http)
    then show ?thesis
      using startswith_http_nonempty by blast
  qed
  with hs have every: "\<exists>hs. search_hotels_google R E post c ci co ad cur cn lg limit = Inr hs
      \<and> (\<forall>h \<in> set hs. hotel_url h \<noteq> [] \<and> startswith (hotel_url h) ''http'')"
    by blast
  have picked: "startswith u ''http'' \<and> (\<exists>k \<in> set (url_key_order R). dict_get node k = JStr u)"
    if "pick_url R node = Some u"
    using that pick_url_loop_some [of node "url_key_order R" u] by (simp add: pick_url_def)
  have unpicked: "(pick_url R node = None) =
      (\<forall>k \<in> URL_KEYS. \<forall>v. dict_get node k = JStr v \<longrightarrow> \<not> startswith v ''http'')"
    if "set (url_key_order R) = URL_KEYS"
    using that pick_url_none_iff [of R node] by simp
  have final: "hotel_url (assemble_hotel city n (row_of (candidate_of R node))) =
       (case pick_url R node of
          Some u \<Rightarrow> u
        | None \<Rightarrow> fallback_url (hotel_name (assemble_hotel city n (row_of (candidate_of R node)))) city)"
  proof (cases "pick_url R node")
    case None
    then have "row_url (row_of (candidate_of R node)) = None"
      by (simp add: row_of_def candidate_of_def)
    with None show ?thesis
      by (simp add: assemble_url)
  next
    case (Some w)
    then have ru: "row_url (row_of (candidate_of R node)) = Some w"
      by (simp add: row_of_def candidate_of_def)
    then have "w \<noteq> []"
      using row_url_http startswith_http_nonempty by blast
    with Some ru show ?thesis
      by (simp add: assemble_url)
  qed
  show ?thesis
    using every picked unpicked final fallback_https by blast
qed

theorem url_begins_with_http_witness:
  "\<forall>R. pick_url (R\<lparr>url_key_order := url_keys_as_written\<rparr>) grand_node
          = Some ''https://grand.example''
     \<and> startswith ''https://grand.example'' ''http''
     \<and> hotel_url (assemble_hotel ''Miami'' 3
          (row_of (candidate_of (R\<lparr>url_key_order := url_keys_as_written\<rparr>) grand_node)))
          = ''https://grand.example''
     \<and> set (url_key_order (R\<lparr>url_key_order := url_keys_as_written\<rparr>)) = URL_KEYS
     \<and> pick_url (R\<lparr>url_key_order := url_keys_as_written\<rparr>) inn_node = None
     \<and> dict_get inn_node ''link'' = JStr ''/inn''
     \<and> \<not> startswith ''/inn'' ''http''
     \<and> hotel_url (assemble_hotel ''Miami'' 3
          (row_of (candidate_of (R\<lparr>url_key_order := url_keys_as_written\<rparr>) inn_node)))
          = ''https://www.google.com/maps/search/?api=1&query=Inn+Miami''"
proof
  fix R :: runtime
  let ?R = "R\<lparr>url_key_order := url_keys_as_written\<rparr>"
  have g: "pick_url ?R grand_node = Some ''https://grand.example''"
    by (simp add: pick_url_def url_keys_as_written_def grand_node_def dict_get_def startswith_def)
  have i: "pick_url ?R inn_node = None"
    by (simp add: pick_url_def url_keys_as_written_def inn_node_def dict_get_def startswith_def)
  have l: "dict_get inn_node ''link'' = JStr ''/inn''" "''link'' \<in> URL_KEYS"
    by (simp_all add: inn_node_def dict_get_def URL_KEYS_def)
  have ks: "set (url_key_order ?R) = URL_KEYS"
    using url_keys_as_written_set by simp
  have nm: "hotel_name (assemble_hotel ''Miami'' 3 (row_of (candidate_of ?R inn_node))) = ''Inn''"
    by (simp add: assemble_hotel_def Let_def row_of_def candidate_of_def node_name_def
        py_or_def dict_get_def py_str_def inn_node_def)
  have fb: "fallback_url ''Inn'' ''Miami'' = ''https://www.google.com/maps/search/?api=1&query=Inn+Miami''"
    by (simp add: fallback_url_def quote_plus_def quote_char_def)
  show "pick_url ?R grand_node = Some ''https://grand.example''
     \<and> startswith ''https://grand.example'' ''http''
     \<and> hotel_url (assemble_hotel ''Miami'' 3 (row_of (candidate_of ?R grand_node)))
          = ''https://grand.example''
     \<and> set (url_key_order ?R) = URL_KEYS
     \<and> pick_url ?R inn_node = None
     \<and> dict_get inn_node ''link'' = JStr ''/inn''
     \<and> \<not> startswith ''/inn'' ''http''
     \<and> hotel_url (assemble_hotel ''Miami'' 3 (row_of (candidate_of ?R inn_node)))
          = ''https://www.google.com/maps/search/?api=1&query=Inn+Miami''"
  proof -
    note t1 = url_begins_with_http [of ?R _ _ _ _ _ _ _ _ _ _ grand_node
        "''https://grand.example''" "''Miami''" 3]
    note t2 = url_begins_with_http [of ?R _ _ _ _ _ _ _ _ _ _ inn_node _ "''Miami''" 3]
    from t1 g have a: "startswith ''https://grand.example'' ''http''"
      by blast
    from t1 have "hotel_url (assemble_hotel ''Miami'' 3 (row_of (candidate_of ?R grand_node))) =
        (case pick_url ?R grand_node of
           Some u \<Rightarrow> u
         | None \<Rightarrow> fallback_url (hotel_name (assemble_hotel ''Miami'' 3
                      (row_of (candidate_of ?R grand_node)))) ''Miami'')"
      by blast
    with g have b: "hotel_url (assemble_hotel ''Miami'' 3 (row_of (candidate_of ?R grand_node)))
        = ''https://grand.example''"
      by simp
    from t2 ks have "(pick_url ?R inn_node = None) =
        (\<forall>k \<in> URL_KEYS. \<forall>v. dict_get inn_node k = JStr v \<longrightarrow> \<not> startswith v ''http'')"
      by blast
    with i l have c: "\<not> startswith ''/inn'' ''http''"
      by blast
    from t2 have "hotel_url (assemble_hotel ''Miami'' 3 (row_of (candidate_of ?R inn_node))) =
        (case pick_url ?R inn_node of
           Some u \<Rightarrow> u
         | None \<Rightarrow> fallback_url (hotel_name (assemble_hotel ''Miami'' 3
                      (row_of (candidate_of ?R inn_node)))) ''Miami'')"
      by blast
    with i nm fb have d: "hotel_url (assemble_hotel ''Miami'' 3 (row_of (candidate_of ?R inn_node)))
        = ''https://www.google.com/maps/search/?api=1&query=Inn+Miami''"
      by simp
    show ?thesis
      using g a b ks i l(1) c d by blast
  qed
qed

subsection \<open>The assembled record\<close>

lemmas float_eval = float_of_digits_def nat_of_digits_def digit_val_def fin_or_inf_def
  dbl_overflow_def

lemmas assemble_eval = assemble_hotel_def Let_def py_or_def float_truthy_def fmul_int_def
  round2_def round_half_even_def fallback_url_def quote_plus_def quote_char_def hex_digit_def

lemma fin_or_inf_zero: "fin_or_inf r = Fin 0 \<longleftrightarrow> r = 0"
  by (simp add: fin_or_inf_def dbl_overflow_def)

lemma fmul_int_zero: "1 \<le> n \<Longrightarrow> fmul_int p n = Fin 0 \<longleftrightarrow> p = Fin 0"
  by (cases p) (auto simp: fmul_int_def fin_or_inf_zero)

lemma assemble_fields:
  "hotel_name (assemble_hotel city n r) = (if row_name r = [] then ''Hotel'' else row_name r)"
  "hotel_area (assemble_hotel city n r) =
     (if truthy (row_area r) then row_area r else JStr ''Central'')"
  "hotel_stars (assemble_hotel city n r) =
     (case row_rating r of None \<Rightarrow> Fin (7 / 2) | Some f \<Rightarrow> (if f = Fin 0 then Fin (7 / 2) else f))"
  "price_per_night_usd (assemble_hotel city n r) = row_price_usd r"
  "total_usd (assemble_hotel city n r) =
     (case row_price_usd r of
        None \<Rightarrow> None
      | Some p \<Rightarrow> (if fmul_int p n = Fin 0 then None else Some (round2 (fmul_int p n))))"
  by (simp_all add: assemble_hotel_def Let_def py_or_def float_truthy_def split: option.splits)

lemma search_ok:
  assumes "fetch_try E post (hotels_url (resolve_city c) ci co ad cur cn lg) = Inr data"
  shows "\<exists>n. nights ci co = Inr n \<and> 1 \<le> n \<and>
           search_hotels_google R E post c ci co ad cur cn lg limit =
             Inr (map (assemble_hotel (resolve_city c) n)
                    (extract_hotels_from_serp_json R data limit))"
  using nights_returns [of ci co] assms
  by (auto simp: search_hotels_google_def Let_def)

text \<open>
  What the assembler computes. When the request succeeds, the result is the list of the
  records assembled from the extracted rows, in their order, with the night count of
  the two dates. A record's name is the row's, or \<open>Hotel\<close> when that is empty; its
  area is the row's when that is true in Python's sense and \<open>Central\<close> otherwise; its
  stars are the row's rating when that is a float other than 0.0, and 3.5 when the
  rating is null or 0.0; its price per night is the row's; its total is the price
  times the nights rounded to two decimals when the price is a float other than 0.0,
  and null when the price is null or 0.0; its URL is the row's when that is present
  and not empty, and otherwise the map-search URL for the quoted name, a space and
  the city. This is the behaviour of the code as written, the null total of a price
  of 0.0 included, which C4 below sets against the record's own price per night.
\<close>

theorem assembled_record:
  "(fetch_try E post (hotels_url (resolve_city c) ci co ad cur cn lg) = Inr data \<longrightarrow>
      (\<exists>n. nights ci co = Inr n \<and> 1 \<le> n \<and>
         search_hotels_google R E post c ci co ad cur cn lg limit =
           Inr (map (assemble_hotel (resolve_city c) n)
                  (extract_hotels_from_serp_json R data limit))))
   \<and> hotel_name (assemble_hotel city n r) = (if row_name r = [] then ''Hotel'' else row_name r)
   \<and> hotel_area (assemble_hotel city n r) =
       (if truthy (row_area r) then row_area r else JStr ''Central'')
   \<and> hotel_stars (assemble_hotel city n r) =
       (case row_rating r of
          None \<Rightarrow> Fin (7 / 2)
        | Some f \<Rightarrow> (if f = Fin 0 then Fin (7 / 2) else f))
   \<and> price_per_night_usd (assemble_hotel city n r) = row_price_usd r
   \<and> (1 \<le> n \<longrightarrow>
        total_usd (assemble_hotel city n r) =
          (case row_price_usd r of
             None \<Rightarrow> None
           | Some p \<Rightarrow> (if p = Fin 0 then None else Some (round2 (fmul_int p n)))))
   \<and> hotel_url (assemble_hotel city n r) =
       (case row_url r of
          None \<Rightarrow> fallback_url (hotel_name (assemble_hotel city n r)) city
        | Some u \<Rightarrow>
            (if u = [] then fallback_url (hotel_name (assemble_hotel city n r)) city else u))
   \<and> fallback_url name city =
       ''https://www.google.com/maps/search/?api=1&query='' @ quote_plus (name @ '' '' @ city)"
proof -
  have total: "total_usd (assemble_hotel city n r) =
          (case row_price_usd r of
             None \<Rightarrow> None
           | Some p \<Rightarrow> (if p = Fin 0 then None else Some (round2 (fmul_int p n))))"
    if "1 \<le> n"
    using that by (simp add: assemble_fields(5) fmul_int_zero split: option.splits)
  have url: "hotel_url (assemble_hotel city n r) =
       (case row_url r of
          None \<Rightarrow> fallback_url (hotel_name (assemble_hotel city n r)) city
        | Some u \<Rightarrow>
            (if u = [] then fallback_url (hotel_name (assemble_hotel city n r)) city else u))"
    by (simp add: assemble_url split: option.splits)
  show ?thesis
    using search_ok [of E post c ci co ad cur cn lg data R limit] total url
    by (simp add: assemble_fields(1-4) fallback_url_def)
qed

theorem assembled_record_witness:
  "\<forall>R. search_hotels_google (R\<lparr>url_key_order := url_keys_as_written\<rparr>) ok_env (answer sample_tree)
     ''MIA'' ''2025-12-05'' ''2025-12-08'' 2 ''USD'' ''us'' ''en'' 12 =
   Inr [\<lparr>hotel_name = ''Grand'', hotel_area = JStr ''Central'', hotel_stars = Fin (9 / 2),
         price_per_night_usd = None, total_usd = None,
         hotel_url = ''https://grand.example''\<rparr>,
        \<lparr>hotel_name = ''Suite'', hotel_area = JStr ''Central'', hotel_stars = Fin (7 / 2),
         price_per_night_usd = Some (Fin 300), total_usd = Some (Fin 900),
         hotel_url = ''https://www.google.com/maps/search/?api=1&query=Suite+Miami''\<rparr>]
     \<and> (1 :: int) \<le> 3
     \<and> total_usd (assemble_hotel ''Miami'' 3
           \<lparr>row_name = ''Suite'', row_rating = None, row_area = JNull,
            row_price_usd = Some (Fin 300), row_url = None\<rparr>)
         = Some (round2 (fmul_int (Fin 300) 3))"
proof
  fix R :: runtime
  let ?R = "R\<lparr>url_key_order := url_keys_as_written\<rparr>"
  have city: "resolve_city ''MIA'' = ''Miami''"
    by (simp add: resolve_city_def upper_def upper_char_def CITY_MAP_def)
  have fetch: "fetch_try ok_env (answer sample_tree) url = Inr sample_tree" for url
    by (simp add: fetch_try_def serp_direct_def require_creds_def not_str_def ok_env_def
        answer_def raise_for_status_def)
  have n: "nights ''2025-12-05'' ''2025-12-08'' = Inr 3"
    by (simp add: nights_def nights_try_def strptime_checkin strptime_checkout ordinal_eval
        is_leap_def)
  have rows: "extract_hotels_from_serp_json ?R sample_tree 12 =
      [\<lparr>row_name = ''Grand'', row_rating = Some (Fin (9 / 2)), row_area = JNull,
        row_price_usd = None, row_url = Some ''https://grand.example''\<rparr>,
       \<lparr>row_name = ''Suite'', row_rating = None, row_area = JNull,
        row_price_usd = Some (Fin 300), row_url = None\<rparr>]"
    by (simp add: extract_hotels_from_serp_json_def walk_candidates sample_eval candidate_eval
        url_keys_as_written_def row_of_def to_price_usd_def is_digit_def float_eval)
  have eq: "search_hotels_google ?R ok_env (answer sample_tree)
     ''MIA'' ''2025-12-05'' ''2025-12-08'' 2 ''USD'' ''us'' ''en'' 12 =
        Inr (map (assemble_hotel ''Miami'' 3) (extract_hotels_from_serp_json ?R sample_tree 12))"
    using assembled_record [of ok_env "answer sample_tree" "''MIA''" "''2025-12-05''"
        "''2025-12-08''" 2 "''USD''" "''us''" "''en''" sample_tree ?R 12]
    by (simp add: city fetch n)
  have h1: "assemble_hotel ''Miami'' 3 \<lparr>row_name = ''Grand'', row_rating = Some (Fin (9 / 2)), row_area = JNull,
        row_price_usd = None, row_url = Some ''https://grand.example''\<rparr> =
        \<lparr>hotel_name = ''Grand'', hotel_area = JStr ''Central'', hotel_stars = Fin (9 / 2),
         price_per_night_usd = None, total_usd = None,
         hotel_url = ''https://grand.example''\<rparr>"
    by (simp add: assemble_eval)
  have h2: "assemble_hotel ''Miami'' 3 \<lparr>row_name = ''Suite'', row_rating = None, row_area = JNull,
        row_price_usd = Some (Fin 300), row_url = None\<rparr> =
        \<lparr>hotel_name = ''Suite'', hotel_area = JStr ''Central'', hotel_stars = Fin (7 / 2),
         price_per_night_usd = Some (Fin 300), total_usd = Some (Fin 900),
         hotel_url = ''https://www.google.com/maps/search/?api=1&query=Suite+Miami''\<rparr>"
    by (simp add: assemble_eval float_eval)
  have tot: "total_usd (assemble_hotel ''Miami'' 3
           \<lparr>row_name = ''Suite'', row_rating = None, row_area = JNull,
            row_price_usd = Some (Fin 300), row_url = None\<rparr>)
         = Some (round2 (fmul_int (Fin 300) 3))"
    using assembled_record [of _ _ _ _ _ _ _ _ _ _ _ _ "''Miami''" 3
        "\<lparr>row_name = ''Suite'', row_rating = None, row_area = JNull,
          row_price_usd = Some (Fin 300), row_url = None\<rparr>"]
    by simp
  have res: "search_hotels_google ?R ok_env (answer sample_tree)
     ''MIA'' ''2025-12-05'' ''2025-12-08'' 2 ''USD'' ''us'' ''en'' 12 =
   Inr [\<lparr>hotel_name = ''Grand'', hotel_area = JStr ''Central'', hotel_stars = Fin (9 / 2),
         price_per_night_usd = None, total_usd = None,
         hotel_url = ''https://grand.example''\<rparr>,
        \<lparr>hotel_name = ''Suite'', hotel_area = JStr ''Central'', hotel_stars = Fin (7 / 2),
         price_per_night_usd = Some (Fin 300), total_usd = Some (Fin 900),
         hotel_url = ''https://www.google.com/maps/search/?api=1&query=Suite+Miami''\<rparr>]"
    by (simp only: eq rows h1 h2 list.map)
  show "search_hotels_google ?R ok_env (answer sample_tree)
     ''MIA'' ''2025-12-05'' ''2025-12-08'' 2 ''USD'' ''us'' ''en'' 12 =
   Inr [\<lparr>hotel_name = ''Grand'', hotel_area = JStr ''Central'', hotel_stars = Fin (9 / 2),
         price_per_night_usd = None, total_usd = None,
         hotel_url = ''https://grand.example''\<rparr>,
        \<lparr>hotel_name = ''Suite'', hotel_area = JStr ''Central'', hotel_stars = Fin (7 / 2),
         price_per_night_usd = Some (Fin 300), total_usd = Some (Fin 900),
         hotel_url = ''https://www.google.com/maps/search/?api=1&query=Suite+Miami''\<rparr>]
     \<and> (1 :: int) \<le> 3
     \<and> total_usd (assemble_hotel ''Miami'' 3
           \<lparr>row_name = ''Suite'', row_rating = None, row_area = JNull,
            row_price_usd = Some (Fin 300), row_url = None\<rparr>)
         = Some (round2 (fmul_int (Fin 300) 3))"
    using res tot by simp
qed

lemma free_night_extracted:
  "extract_hotels_from_serp_json R free_night_tree 12 = [free_night_row]"
proof -
  let ?node = "[(''name'', JStr ''Free Inn''), (''rating'', JStr ''0''), (''price'', JStr ''$0'')]"
  have q: "qualifying_nodes free_night_tree = [?node]"
    by (simp add: free_night_tree_def qualifying_nodes_def qualifies_def node_name_def
        node_rating_def node_price_text_def py_or_def dict_get_def)
  have "pick_url_loop ?node ks = None" for ks
    by (rule pick_url_loop_no_http) (auto simp: dict_get_def startswith_def split: if_splits)
  then have "candidate_of R ?node =
      \<lparr>cand_name = ''Free Inn'', cand_rating = Some (Fin 0), cand_price_text = Some ''$0'',
       cand_address = JNull, cand_url = None\<rparr>"
    by (simp add: candidate_eval float_str_def is_digit_def float_eval)
  then show ?thesis
    by (simp add: extract_hotels_from_serp_json_def walk_candidates q row_of_def
        free_night_row_def to_price_usd_def is_digit_def float_eval)
qed

lemma search_free_night:
  "search_hotels_google R ok_env (answer free_night_tree)
     ''MIA'' ''2025-12-05'' ''2025-12-08'' 2 ''USD'' ''us'' ''en'' 12 =
   Inr [\<lparr>hotel_name = ''Free Inn'', hotel_area = JStr ''Central'', hotel_stars = Fin (7 / 2),
         price_per_night_usd = Some (Fin 0), total_usd = None,
         hotel_url = ''https://www.google.com/maps/search/?api=1&query=Free+Inn+Miami''\<rparr>]"
proof -
  have city: "resolve_city ''MIA'' = ''Miami''"
    by (simp add: resolve_city_def upper_def upper_char_def CITY_MAP_def)
  have fetch: "fetch_try ok_env (answer free_night_tree) url = Inr free_night_tree" for url
    by (simp add: fetch_try_def serp_direct_def require_creds_def not_str_def ok_env_def
        answer_def raise_for_status_def)
  have n: "nights ''2025-12-05'' ''2025-12-08'' = Inr 3"
    by (simp add: nights_def nights_try_def strptime_checkin strptime_checkout ordinal_eval
        is_leap_def)
  have h: "assemble_hotel ''Miami'' 3 free_night_row =
      \<lparr>hotel_name = ''Free Inn'', hotel_area = JStr ''Central'', hotel_stars = Fin (7 / 2),
         price_per_night_usd = Some (Fin 0), total_usd = None,
         hotel_url = ''https://www.google.com/maps/search/?api=1&query=Free+Inn+Miami''\<rparr>"
    by (simp add: free_night_row_def assemble_eval float_eval)
  show ?thesis
    by (simp add: search_hotels_google_def city fetch n free_night_extracted h)
qed

text \<open>
  C4. What the code does for a hotel whose price text is \<open>$0\<close>: the record carries
  the price per night 0.0, a valid number whose product with the three nights,
  rounded, is 0.0, and the total is null.
\<close>

theorem zero_price_total_null:
  "price_per_night_usd (assemble_hotel ''Miami'' 3 free_night_row) = Some (Fin 0)
   \<and> round2 (fmul_int (Fin 0) 3) = Fin 0
   \<and> total_usd (assemble_hotel ''Miami'' 3 free_night_row) = None
   \<and> \<not> total_usd (assemble_hotel ''Miami'' 3 free_night_row) =
         (case price_per_night_usd (assemble_hotel ''Miami'' 3 free_night_row) of
            None \<Rightarrow> None
          | Some p \<Rightarrow> Some (round2 (fmul_int p 3)))"
  by (simp add: free_night_row_def assemble_eval float_eval)

subsection \<open>The place summary\<close>

text \<open>
  C8 as stated fails on a place whose \<open>geometry\<close> is null: the lookup of
  \<open>location\<close> on it raises \<open>AttributeError\<close>.
\<close>

theorem null_geometry_raises:
  "normalize_place_summary [(''place_id'', JStr ''p1''), (''name'', JStr ''Cafe''), (''geometry'', JNull)]
     = Inl AttributeError"
  by (simp add: normalize_place_summary_def geometry_get_location_def)

text \<open>
  C8, as the code has it. For every place whose \<open>geometry\<close> is missing or is an
  object, the summary is returned and has the six fields: the place's \<open>place_id\<close>,
  \<open>name\<close>, \<open>rating\<close> and \<open>types\<close>, the \<open>location\<close> of the geometry, and as
  address the \<open>formatted_address\<close> when that is true in Python's sense and the
  \<open>vicinity\<close> otherwise. A missing key reads as null. A place with only
  \<open>place_id\<close> and \<open>name\<close> gives null for the other four fields.
\<close>

theorem place_summary_projection:
  "(map_of place ''geometry'' = None \<or> (\<exists>g. map_of place ''geometry'' = Some (JObj g)) \<longrightarrow>
      (\<exists>ps. normalize_place_summary place = Inr ps
         \<and> place_id ps = dict_get place ''place_id''
         \<and> place_name ps = dict_get place ''name''
         \<and> place_rating ps = dict_get place ''rating''
         \<and> place_types ps = dict_get place ''types''
         \<and> place_location ps =
             (case map_of place ''geometry'' of
                Some (JObj g) \<Rightarrow> dict_get g ''location''
              | _ \<Rightarrow> JNull)
         \<and> place_address ps =
             (if truthy (dict_get place ''formatted_address'')
              then dict_get place ''formatted_address'' else dict_get place ''vicinity'')))
   \<and> (k \<notin> fst ` set place \<longrightarrow> dict_get place k = JNull)
   \<and> normalize_place_summary [(''place_id'', pid), (''name'', nm)] =
       Inr \<lparr>place_id = pid, place_name = nm, place_rating = JNull, place_types = JNull,
            place_location = JNull, place_address = JNull\<rparr>"
proof -
  have missing: "dict_get place k = JNull" if "k \<notin> fst ` set place"
  proof -
    from that have "map_of place k = None"
      by (simp add: map_of_eq_None_iff)
    then show ?thesis
      by (simp add: dict_get_def)
  qed
  have two: "normalize_place_summary [(''place_id'', pid), (''name'', nm)] =
       Inr \<lparr>place_id = pid, place_name = nm, place_rating = JNull, place_types = JNull,
            place_location = JNull, place_address = JNull\<rparr>"
    by (simp add: normalize_place_summary_def geometry_get_location_def dict_get_def py_or_def)
  show ?thesis
    using missing two
    by (auto simp: normalize_place_summary_def geometry_get_location_def py_or_def dict_get_def)
qed

theorem place_summary_projection_witness:
  "map_of cafe_place ''geometry'' =
     Some (JObj [(''location'', JObj [(''lat'', JInt 47), (''lng'', JInt (- 122))])])
   \<and> normalize_place_summary cafe_place =
       Inr \<lparr>place_id = JStr ''p1'', place_name = JStr ''Cafe'', place_rating = JNull,
            place_types = JNull,
            place_location = JObj [(''lat'', JInt 47), (''lng'', JInt (- 122))],
            place_address = JStr ''1 Pine St''\<rparr>
   \<and> ''rating'' \<notin> fst ` set cafe_place"
proof -
  have g: "map_of cafe_place ''geometry'' =
     Some (JObj [(''location'', JObj [(''lat'', JInt 47), (''lng'', JInt (- 122))])])"
    by (simp add: cafe_place_def)
  have r: "''rating'' \<notin> fst ` set cafe_place"
    by (simp add: cafe_place_def)
  from g have "map_of cafe_place ''geometry'' = None
      \<or> (\<exists>g. map_of cafe_place ''geometry'' = Some (JObj g))"
    by blast
  with place_summary_projection [of cafe_place "''rating''"]
  obtain ps where ps: "normalize_place_summary cafe_place = Inr ps"
    and f: "place_id ps = dict_get cafe_place ''place_id''"
      "place_name ps = dict_get cafe_place ''name''"
      "place_rating ps = dict_get cafe_place ''rating''"
      "place_types ps = dict_get cafe_place ''types''"
      "place_location ps =
         (case map_of cafe_place ''geometry'' of
            Some (JObj g) \<Rightarrow> dict_get g ''location''
          | _ \<Rightarrow> JNull)"
      "place_address ps =
         (if truthy (dict_get cafe_place ''formatted_address'')
          then dict_get cafe_place ''formatted_address'' else dict_get cafe_place ''vicinity'')"
    by blast
  have "ps = \<lparr>place_id = JStr ''p1'', place_name = JStr ''Cafe'', place_rating = JNull,
            place_types = JNull,
            place_location = JObj [(''lat'', JInt 47), (''lng'', JInt (- 122))],
            place_address = JStr ''1 Pine St''\<rparr>"
    using f by (cases ps) (simp add: cafe_place_def dict_get_def)
  with ps g r show ?thesis
    by simp
qed

subsection \<open>Missing credentials\<close>

text \<open>
  C1. What the code does when a credential is missing or empty: \<open>_require_creds\<close>
  raises \<open>BrightDataError\<close> inside \<open>serp_direct\<close>, the handler around the request
  in \<open>search_hotels_google\<close> takes it and returns the empty list, and the command
  line prints the results object with no results; the error object is never printed.
\<close>

theorem missing_credentials_swallowed:
  "not_str (BRIGHT_API_KEY E) \<or> not_str (BRIGHT_SERP_ZONE E) \<Longrightarrow>
     require_creds E = Inl (BrightDataError ''Set BRIGHTDATA_API_KEY and BRIGHTDATA_SERP_ZONE env vars'')
     \<and> serp_direct E post url = Inl (BrightDataError ''Set BRIGHTDATA_API_KEY and BRIGHTDATA_SERP_ZONE env vars'')
     \<and> search_hotels_google R E post c ci co ad cur cn lg limit = Inr []
     \<and> cli_main R E post c ci co ad limit = Inr (Results c ci co ad [])"
  by (simp add: require_creds_def serp_direct_def fetch_try_def search_hotels_google_def
      cli_main_def Let_def)

theorem missing_credentials_swallowed_witness:
  "not_str (BRIGHT_API_KEY no_key_env)
   \<and> (\<forall>R post. search_hotels_google R no_key_env post ''MIA'' ''2025-12-05'' ''2025-12-08'' 2
          ''USD'' ''us'' ''en'' 8 = Inr [])
   \<and> (\<forall>R post. cli_main R no_key_env post ''MIA'' ''2025-12-05'' ''2025-12-08'' 2 8 =
          Inr (Results ''MIA'' ''2025-12-05'' ''2025-12-08'' 2 []))"
proof -
  have k: "not_str (BRIGHT_API_KEY no_key_env)"
    by (simp add: no_key_env_def not_str_def)
  then have "not_str (BRIGHT_API_KEY no_key_env) \<or> not_str (BRIGHT_SERP_ZONE no_key_env)"
    by blast
  from missing_credentials_swallowed [OF this] k show ?thesis
    by blast
qed

end
